theory Spec2Isabelle
  imports Complex_Main "HOL-Library.Signed_Division"
begin

section \<open>JavaScript values used by the dose calculator\<close>

text \<open>
  The calculator (\<^verbatim>\<open>MicrodoseCalculator\<close>) works on JavaScript numbers and strings.
  A JavaScript number is an IEEE 754 double. A finite double is modelled by the real number
  it denotes, and every multiplication and division of the source rounds its exact result to
  the nearest double (section ``Doubles''). The number inputs of the calculator (weight,
  sensitivity) are finite doubles; the values it computes can also be an infinity or NaN.

  The three lookup tables of \<^verbatim>\<open>types/microdose.ts\<close> are object literals, and
  \<^verbatim>\<open>TABLE[key]\<close> is a property access: it finds the table's own entry, or a member that
  every object literal inherits from \<^verbatim>\<open>Object.prototype\<close> (a function or an object,
  never a number), or nothing (\<^verbatim>\<open>undefined\<close>).
\<close>

datatype 'a property = Own 'a | Inherited | Undefined

definition Object_prototype_keys :: "string list" where
  "Object_prototype_keys =
     [''constructor'', ''__defineGetter__'', ''__defineSetter__'', ''hasOwnProperty'',
      ''__lookupGetter__'', ''__lookupSetter__'', ''isPrototypeOf'',
      ''propertyIsEnumerable'', ''toString'', ''valueOf'', ''__proto__'',
      ''toLocaleString'']"

definition get_property :: "(string \<times> 'a) list \<Rightarrow> string \<Rightarrow> 'a property" where
  "get_property obj key =
     (case map_of obj key of
        Some v \<Rightarrow> Own v
      | None \<Rightarrow> if key \<in> set Object_prototype_keys then Inherited else Undefined)"

text \<open>
  \<^verbatim>\<open>v || d\<close> on a looked-up number: \<^verbatim>\<open>undefined\<close> and \<^verbatim>\<open>0\<close> are falsy and give
  \<open>d\<close>; an inherited function or object is truthy and is kept.
\<close>

definition or_default :: "real property \<Rightarrow> real \<Rightarrow> real property" where
  "or_default v d =
     (case v of
        Own x \<Rightarrow> if x = 0 then Own d else Own x
      | Inherited \<Rightarrow> Inherited
      | Undefined \<Rightarrow> Own d)"

section \<open>Doubles\<close>

text \<open>
  The exponent of the binade of \<open>x\<close>: the largest \<open>e\<close> with \<open>2\<^sup>e \<le> \<bar>x\<bar>\<close>, but
  at least -1022 (below that the doubles are subnormal and equally spaced) and at most
  1023. It is found by stepping up or down from 0.
\<close>

primrec exponent_up :: "nat \<Rightarrow> real \<Rightarrow> int \<Rightarrow> int" where
  "exponent_up 0 x e = e"
| "exponent_up (Suc n) x e = (if 2 powi (e + 1) \<le> x then exponent_up n x (e + 1) else e)"

primrec exponent_down :: "nat \<Rightarrow> real \<Rightarrow> int \<Rightarrow> int" where
  "exponent_down 0 x e = e"
| "exponent_down (Suc n) x e =
     (if 2 powi (e - 1) \<le> x then e - 1 else exponent_down n x (e - 1))"

definition double_exponent :: "real \<Rightarrow> int" where
  "double_exponent x =
     (if 1 \<le> \<bar>x\<bar> then exponent_up 1023 \<bar>x\<bar> 0 else exponent_down 1022 \<bar>x\<bar> 0)"

text \<open>The nearest integer, a tie going to the even one.\<close>

definition round_ties_even :: "real \<Rightarrow> int" where
  "round_ties_even y =
     (let f = \<lfloor>y\<rfloor>; r = y - of_int f
      in if r < 1 / 2 then f else if 1 / 2 < r then f + 1 else if even f then f else f + 1)"

text \<open>
  The double nearest to \<open>x\<close> (53 significant bits, ties to even), as long as it is
  finite: the multiple of the unit in the last place of the binade of \<open>x\<close>.
\<close>

definition double_round :: "real \<Rightarrow> real" where
  "double_round x =
     (let ulp = 2 powi (double_exponent x - 52)
      in of_int (round_ties_even (x / ulp)) * ulp)"

datatype number = Finite real | PosInfinity | NegInfinity | NaN

text \<open>The result of an operation whose exact value is \<open>x\<close>: it overflows to an infinity
  when the rounded value reaches \<open>2\<^sup>1\<^sup>0\<^sup>2\<^sup>4\<close>.\<close>

definition overflow_bound :: real where
  "overflow_bound = 2 powi 1024"

definition round_to_double :: "real \<Rightarrow> number" where
  "round_to_double x =
     (let y = double_round x
      in if overflow_bound \<le> \<bar>y\<bar> then (if 0 < y then PosInfinity else NegInfinity)
         else Finite y)"

text \<open>\<^verbatim>\<open>a * b\<close>. (The two zeros of IEEE are the one real 0; their sign plays no role
  here.)\<close>

fun multiply :: "number \<Rightarrow> number \<Rightarrow> number" where
  "multiply (Finite a) (Finite b) = round_to_double (a * b)"
| "multiply NaN _ = NaN"
| "multiply _ NaN = NaN"
| "multiply (Finite a) PosInfinity =
     (if a = 0 then NaN else if 0 < a then PosInfinity else NegInfinity)"
| "multiply (Finite a) NegInfinity =
     (if a = 0 then NaN else if 0 < a then NegInfinity else PosInfinity)"
| "multiply PosInfinity (Finite b) =
     (if b = 0 then NaN else if 0 < b then PosInfinity else NegInfinity)"
| "multiply NegInfinity (Finite b) =
     (if b = 0 then NaN else if 0 < b then NegInfinity else PosInfinity)"
| "multiply PosInfinity PosInfinity = PosInfinity"
| "multiply PosInfinity NegInfinity = NegInfinity"
| "multiply NegInfinity PosInfinity = NegInfinity"
| "multiply NegInfinity NegInfinity = PosInfinity"

text \<open>\<^verbatim>\<open>a / c\<close> for a positive finite constant \<open>c\<close> (the source divides by 70 and by
  10 only).\<close>

fun divide_by :: "number \<Rightarrow> real \<Rightarrow> number" where
  "divide_by (Finite a) c = round_to_double (a / c)"
| "divide_by PosInfinity c = PosInfinity"
| "divide_by NegInfinity c = NegInfinity"
| "divide_by NaN c = NaN"

text \<open>\<^verbatim>\<open>Math.round\<close>: the nearest integer, a tie going towards \<open>+\<infinity>\<close>; exact, since
  that integer is a double whenever the argument is.\<close>

fun Math_round :: "number \<Rightarrow> number" where
  "Math_round (Finite x) = Finite (of_int \<lfloor>x + 1 / 2\<rfloor>)"
| "Math_round PosInfinity = PosInfinity"
| "Math_round NegInfinity = NegInfinity"
| "Math_round NaN = NaN"

section \<open>The static tables (\<^verbatim>\<open>src/types/microdose.ts\<close>)\<close>

datatype dose_unit = mg | microgram

record substance_data =
  sd_baseDose :: real
  sd_unit :: dose_unit
  sd_description :: string

definition SUBSTANCE_BASE_DOSES :: "(string \<times> substance_data) list" where
  "SUBSTANCE_BASE_DOSES =
     [(''psilocybin'', \<lparr>sd_baseDose = 200, sd_unit = mg,
                         sd_description = ''Dried Psilocybin mushrooms''\<rparr>),
      (''lsd'', \<lparr>sd_baseDose = 10, sd_unit = microgram, sd_description = ''LSD''\<rparr>),
      (''amanita'', \<lparr>sd_baseDose = 100, sd_unit = mg,
                      sd_description = ''Dried Amanita muscaria''\<rparr>),
      (''ketamine'', \<lparr>sd_baseDose = 10, sd_unit = mg, sd_description = ''Ketamine''\<rparr>)]"

definition GOAL_FACTORS :: "(string \<times> real) list" where
  "GOAL_FACTORS = [(''sub_perceptual'', 1 / 2), (''standard'', 1), (''upper_microdose'', 2)]"

text \<open>The literal \<^verbatim>\<open>0.01\<close> is the double nearest to 1/100; the other literals of the
  tables are doubles as they stand.\<close>

definition INTAKE_FORM_FACTORS :: "(string \<times> real) list" where
  "INTAKE_FORM_FACTORS =
     [(''dried_mushrooms'', 1), (''fresh_mushrooms'', 10), (''truffles'', 2),
      (''pure_extract'', double_round (1 / 100)),
      (''blotter'', 1), (''liquid'', 1),
      (''capsules'', 1),
      (''liquid_ketamine'', 1)]"

text \<open>
  The comments of \<^verbatim>\<open>INTAKE_FORM_FACTORS\<close> group its keys by substance (Psilocybin, LSD,
  Amanita, Ketamine). The grouping exists only in those comments; it is written down here
  to state which intake forms belong to which substance.
\<close>

definition SUBSTANCE_INTAKE_FORMS :: "(string \<times> string list) list" where
  "SUBSTANCE_INTAKE_FORMS =
     [(''psilocybin'', [''dried_mushrooms'', ''fresh_mushrooms'', ''truffles'', ''pure_extract'']),
      (''lsd'', [''blotter'', ''liquid'']),
      (''amanita'', [''capsules'']),
      (''ketamine'', [''liquid_ketamine''])]"

definition recognized_for :: "string \<Rightarrow> string \<Rightarrow> bool" where
  "recognized_for subst form =
     (case map_of SUBSTANCE_INTAKE_FORMS subst of
        None \<Rightarrow> False
      | Some forms \<Rightarrow> form \<in> set forms)"

section \<open>\<^verbatim>\<open>MicrodoseCalculator\<close>\<close>

record MicrodoseCalculationParams =
  gender :: string
  weight :: real
  substance :: string
  intakeForm :: string
  sensitivity :: real
  goal :: string
  experience :: "string option"
  currentMedication :: "string option"

text \<open>
  The result without its two presentation strings: \<^verbatim>\<open>explanation\<close> is kept only as far
  as building it can throw, and \<^verbatim>\<open>recommendations\<close> (a list of fixed advisory sentences
  that no number depends on) is left out.
\<close>

record MicrodoseCalculationResult =
  calculatedDose :: number
  doseUnit :: dose_unit
  baseDose :: real
  weightFactor :: number
  sensitivityFactor :: real
  goalFactor :: real
  intakeFormFactor :: real

text \<open>
  How a call of \<open>calculate\<close> can end without such a result: a \<^verbatim>\<open>TypeError\<close> is
  thrown, or the call returns an object whose \<^verbatim>\<open>baseDose\<close> and \<^verbatim>\<open>doseUnit\<close> are
  \<^verbatim>\<open>undefined\<close> (and whose \<^verbatim>\<open>calculatedDose\<close> is NaN).
\<close>

datatype calc_failure = TypeError | NaNResult

text \<open>
  \<^verbatim>\<open>generateExplanation\<close> calls \<^verbatim>\<open>toFixed\<close> on the goal factor and on the intake-form
  factor. That throws a \<^verbatim>\<open>TypeError\<close> unless the value is a number. (The weight and
  sensitivity factors are numbers by construction.) The text itself is not modelled.
\<close>

definition generateExplanation :: "real property \<Rightarrow> real property \<Rightarrow> calc_failure + unit" where
  "generateExplanation goalFactor' intakeFormFactor' =
     (case goalFactor' of
        Own _ \<Rightarrow> (case intakeFormFactor' of Own _ \<Rightarrow> Inr () | _ \<Rightarrow> Inl TypeError)
      | _ \<Rightarrow> Inl TypeError)"

text \<open>
  Line 28: \<^verbatim>\<open>baseDose * weightFactor * sensitivityFactor * goalFactor * intakeFormFactor\<close>,
  multiplied from the left, each product rounded.
\<close>

definition dose_product :: "real \<Rightarrow> number \<Rightarrow> real \<Rightarrow> real \<Rightarrow> real \<Rightarrow> number" where
  "dose_product bd wF sF gF iF =
     multiply (multiply (multiply (multiply (Finite bd) wF) (Finite sF)) (Finite gF)) (Finite iF)"

text \<open>The rounding of lines 31-33: one decimal for \<^verbatim>\<open>'lsd'\<close>, whole numbers otherwise.\<close>

definition roundedDose :: "string \<Rightarrow> number \<Rightarrow> number" where
  "roundedDose subst dose =
     (if subst = ''lsd'' then divide_by (Math_round (multiply dose (Finite 10))) 10
      else Math_round dose)"

definition calculate :: "MicrodoseCalculationParams \<Rightarrow> calc_failure + MicrodoseCalculationResult" where
  "calculate params =
     (let goalFactor' = get_property GOAL_FACTORS (goal params);
          intakeFormFactor' =
            or_default (get_property INTAKE_FORM_FACTORS (intakeForm params)) 1
      in case get_property SUBSTANCE_BASE_DOSES (substance params) of
           Undefined \<Rightarrow> Inl TypeError
         | Inherited \<Rightarrow>
             (case generateExplanation goalFactor' intakeFormFactor' of
                Inl e \<Rightarrow> Inl e
              | Inr _ \<Rightarrow> Inl NaNResult)
         | Own substanceData \<Rightarrow>
             (case generateExplanation goalFactor' intakeFormFactor' of
                Inl e \<Rightarrow> Inl e
              | Inr _ \<Rightarrow>
                 (case (goalFactor', intakeFormFactor') of
                    (Own gF, Own iF) \<Rightarrow>
                      (let bd = sd_baseDose substanceData;
                           wF = divide_by (Finite (weight params)) 70;
                           sF = sensitivity params;
                           dose = dose_product bd wF sF gF iF
                       in Inr \<lparr>calculatedDose = roundedDose (substance params) dose,
                               doseUnit = sd_unit substanceData,
                               baseDose = bd,
                               weightFactor = wF,
                               sensitivityFactor = sF,
                               goalFactor = gF,
                               intakeFormFactor = iF\<rparr>)
                  | _ \<Rightarrow> Inl TypeError)))"

text \<open>The unrounded dose of line 28, read off the factors that the result reports.\<close>

definition unroundedDose :: "MicrodoseCalculationResult \<Rightarrow> number" where
  "unroundedDose r =
     dose_product (baseDose r) (weightFactor r) (sensitivityFactor r) (goalFactor r)
       (intakeFormFactor r)"

record validation =
  isValid :: bool
  errors :: "string list"

text \<open>
  \<^verbatim>\<open>validateParams\<close>: six independent checks, each pushing one message. \<^verbatim>\<open>!s\<close> on
  a string holds for the empty string, \<^verbatim>\<open>!x\<close> on a number for zero. Comparisons of
  doubles are exact. The literal \<^verbatim>\<open>0.3\<close> is the double nearest to 3/10, which lies just
  below it; the other bounds are doubles as they stand.
\<close>

definition validateParams :: "MicrodoseCalculationParams \<Rightarrow> validation" where
  "validateParams params =
     (let errs = [];
          errs = (if gender params = [] \<or> gender params \<notin> set [''male'', ''female'', ''other'']
                  then errs @ [''Geschlecht ist erforderlich''] else errs);
          errs = (if weight params = 0 \<or> weight params < 30 \<or> weight params > 200
                  then errs @ [''Gewicht muss zwischen 30 und 200 kg liegen''] else errs);
          errs = (if substance params = [] \<or>
                     substance params \<notin> set [''psilocybin'', ''lsd'', ''amanita'', ''ketamine'']
                  then errs @ [''Substanz ist erforderlich''] else errs);
          errs = (if intakeForm params = []
                  then errs @ [''Einnahmeform ist erforderlich''] else errs);
          errs = (if sensitivity params = 0 \<or> sensitivity params < double_round (3 / 10) \<or>
                     sensitivity params > 2
                  then errs @ [''Empfindlichkeit muss zwischen 0.3 und 2.0 liegen''] else errs);
          errs = (if goal params = [] \<or>
                     goal params \<notin> set [''sub_perceptual'', ''standard'', ''upper_microdose'']
                  then errs @ [''Ziel ist erforderlich''] else errs)
      in \<lparr>isValid = (length errs = 0), errors = errs\<rparr>)"

section \<open>Dates and the host time zone\<close>

text \<open>
  A JavaScript \<^verbatim>\<open>Date\<close> is modelled by its time value, the milliseconds since the epoch
  in UTC, as an \<^typ>\<open>int\<close> (an invalid date and the range limit of time values are outside
  the model). The UTC methods (\<^verbatim>\<open>setUTCHours\<close>, \<^verbatim>\<open>setUTCDate\<close>, \<^verbatim>\<open>getUTCDate\<close>,
  \<^verbatim>\<open>getTime\<close>) depend on the time value only. The local-time methods that
  \<^verbatim>\<open>generateProtocolEvents\<close> calls (\<^verbatim>\<open>getDay\<close>, \<^verbatim>\<open>getDate\<close>, \<^verbatim>\<open>setDate\<close>) depend on
  the time zone of the host process as well. Following ECMAScript, the host zone is the
  function \<^verbatim>\<open>LocalTZA(t, isUTC)\<close>: the offset of local time from UTC in milliseconds, at
  the UTC instant \<open>t\<close> when \<open>isUTC\<close> holds and at the local time \<open>t\<close> otherwise.
\<close>

type_synonym timezone = "int \<Rightarrow> bool \<Rightarrow> int"

definition msPerDay :: int where
  "msPerDay = 86400000"

definition Day :: "int \<Rightarrow> int" where
  "Day t = t div msPerDay"

definition TimeWithinDay :: "int \<Rightarrow> int" where
  "TimeWithinDay t = t mod msPerDay"

definition MakeTime :: "int \<Rightarrow> int \<Rightarrow> int \<Rightarrow> int \<Rightarrow> int" where
  "MakeTime hour minute sec ms = hour * 3600000 + minute * 60000 + sec * 1000 + ms"

definition MakeDate :: "int \<Rightarrow> int \<Rightarrow> int" where
  "MakeDate day time = day * msPerDay + time"

definition WeekDay :: "int \<Rightarrow> int" where
  "WeekDay t = (Day t + 4) mod 7"

definition LocalTime :: "timezone \<Rightarrow> int \<Rightarrow> int" where
  "LocalTime tz t = t + tz t True"

definition UTC :: "timezone \<Rightarrow> int \<Rightarrow> int" where
  "UTC tz t = t - tz t False"

text \<open>\<^verbatim>\<open>d.getDay()\<close>: the weekday of the local date, 0 = Sunday.\<close>

definition getDay :: "timezone \<Rightarrow> int \<Rightarrow> int" where
  "getDay tz d = WeekDay (LocalTime tz d)"

text \<open>
  \<^verbatim>\<open>d.setDate(d.getDate() + 1)\<close>: the local date one day later at the same local time
  of day, converted back to UTC. (\<^verbatim>\<open>MakeDay\<close> of the local year and month with the day
  of the month plus one is the local day number plus one.)
\<close>

definition setDate_getDate_plus_1 :: "timezone \<Rightarrow> int \<Rightarrow> int" where
  "setDate_getDate_plus_1 tz d =
     (let t = LocalTime tz d
      in UTC tz (MakeDate (Day t + 1) (TimeWithinDay t)))"

text \<open>\<^verbatim>\<open>d.setUTCHours(hour, minute, sec, ms)\<close>.\<close>

definition setUTCHours :: "int \<Rightarrow> int \<Rightarrow> int \<Rightarrow> int \<Rightarrow> int \<Rightarrow> int" where
  "setUTCHours d hour minute sec ms = MakeDate (Day d) (MakeTime hour minute sec ms)"

text \<open>\<^verbatim>\<open>d.setUTCDate(d.getUTCDate() + n)\<close>.\<close>

definition setUTCDate_getUTCDate_plus :: "int \<Rightarrow> int \<Rightarrow> int" where
  "setUTCDate_getUTCDate_plus d n = MakeDate (Day d + n) (TimeWithinDay d)"

text \<open>Host zones: a constant offset, and Central European Time around the start of
  summer time on 2024-03-31 at 01:00 UTC (UTC+1 before, UTC+2 after; a local time in the
  skipped hour is read with the offset before the change).\<close>

definition fixed_zone :: "int \<Rightarrow> timezone" where
  "fixed_zone offset = (\<lambda>t isUTC. offset)"

definition Europe_Berlin_2024 :: timezone where
  "Europe_Berlin_2024 =
     (\<lambda>t isUTC.
        if isUTC then (if t < 1711846800000 then 3600000 else 7200000)
        else (if t < 1711846800000 + 7200000 then 3600000 else 7200000))"

section \<open>Protocol events (\<^verbatim>\<open>src/modules/protocol/routes.ts\<close>)\<close>

text \<open>
  The rows as far as the generator reads or writes them (database ids are left out).
  \<^verbatim>\<open>settings.custom\<close> and its \<^verbatim>\<open>doseDays\<close> may be absent, which the generator tests;
  a dose day is a weekday index. The profile is the stored result of the calculator.
\<close>

record custom_settings =
  doseDays :: "int list option"

record protocol_settings =
  custom :: "custom_settings option"

record protocol =
  protocol_type :: string
  startDate :: int
  endDate :: int
  settings :: protocol_settings

record profile =
  profile_substance :: string
  profile_calculatedDose :: real
  profile_doseUnit :: string

record event_metadata =
  md_dayOfWeek :: int
  md_isDoseDay :: bool
  md_protocolType :: string
  md_daysSinceStart :: int

record ProtocolEvent =
  ev_date :: int
  ev_type :: string
  ev_status :: string
  ev_substance :: "string option"
  ev_dose :: "real option"
  ev_doseUnit :: "string option"
  ev_metadata :: event_metadata

text \<open>
  The protocol row that \<^verbatim>\<open>POST /create\<close> stores and hands to the generator (lines
  74-78 and 104-116), for a request that passed the checks of lines 80-101: the start at
  UTC midnight, the end at the last millisecond of the UTC day \<open>cycleLength * 7\<close> days
  later. The cycle length is a whole number of weeks.
\<close>

definition create_protocol :: "string \<Rightarrow> int \<Rightarrow> int \<Rightarrow> protocol_settings \<Rightarrow> protocol" where
  "create_protocol ptype startInput cycleLength psettings =
     (let start = setUTCHours startInput 0 0 0 0;
          end = setUTCHours (setUTCDate_getUTCDate_plus start (cycleLength * 7)) 23 59 59 999
      in \<lparr>protocol_type = ptype, startDate = start, endDate = end, settings = psettings\<rparr>)"

text \<open>
  \<^verbatim>\<open>Math.floor((currentDate.getTime() - startDate.getTime()) / (1000 * 60 * 60 * 24))\<close>
\<close>

definition daysSinceStart :: "protocol \<Rightarrow> int \<Rightarrow> int" where
  "daysSinceStart p currentDate = (currentDate - startDate p) div (1000 * 60 * 60 * 24)"

text \<open>
  The classification of lines 344-364. \<^verbatim>\<open>%\<close> is the truncating remainder \<open>smod\<close>;
  \<^verbatim>\<open>includes\<close> is membership.
\<close>

definition isDoseDay :: "timezone \<Rightarrow> protocol \<Rightarrow> int \<Rightarrow> bool" where
  "isDoseDay tz p currentDate =
     (let dayOfWeek = getDay tz currentDate
      in if protocol_type p = ''fadiman'' then
           daysSinceStart p currentDate smod 3 = 0
         else if protocol_type p = ''stamets'' then
           (let dayInCycle = daysSinceStart p currentDate smod 7 in dayInCycle < 4)
         else if protocol_type p = ''custom'' then
           (case custom (settings p) of
              None \<Rightarrow> False
            | Some customSettings \<Rightarrow>
                (case doseDays customSettings of
                   None \<Rightarrow> False
                 | Some days \<Rightarrow> dayOfWeek \<in> set days))
         else False)"

text \<open>The event that one iteration creates (lines 369-388).\<close>

definition create_event :: "timezone \<Rightarrow> protocol \<Rightarrow> profile \<Rightarrow> int \<Rightarrow> ProtocolEvent" where
  "create_event tz p prof currentDate =
     (let dose_day = isDoseDay tz p currentDate;
          eventDate = setUTCHours currentDate 0 0 0 0
      in \<lparr>ev_date = eventDate,
          ev_type = (if dose_day then ''dose'' else ''pause''),
          ev_status = ''scheduled'',
          ev_substance = (if dose_day then Some (profile_substance prof) else None),
          ev_dose = (if dose_day then Some (profile_calculatedDose prof) else None),
          ev_doseUnit = (if dose_day then Some (profile_doseUnit prof) else None),
          ev_metadata = \<lparr>md_dayOfWeek = getDay tz currentDate,
                          md_isDoseDay = dose_day,
                          md_protocolType = protocol_type p,
                          md_daysSinceStart = daysSinceStart p currentDate\<rparr>\<rparr>)"

text \<open>
  The loop \<^verbatim>\<open>while (currentDate <= endDate)\<close>, with \<^verbatim>\<open>events.push\<close> as appending.
  Whether it ends depends on the host zone, so a run that does not return is \<open>None\<close>.
  (\<^verbatim>\<open>prisma.protocolEvent.create\<close> returns the row it is given; the database is not
  modelled. \<^verbatim>\<open>dayCount\<close> is only logged.)
\<close>

partial_function (option) generate_loop ::
  "timezone \<Rightarrow> protocol \<Rightarrow> profile \<Rightarrow> int \<Rightarrow> ProtocolEvent list \<Rightarrow> ProtocolEvent list option" where
  "generate_loop tz p prof currentDate events =
     (if currentDate \<le> endDate p then
        generate_loop tz p prof (setDate_getDate_plus_1 tz currentDate)
          (events @ [create_event tz p prof currentDate])
      else Some events)"

declare generate_loop.simps [code]

definition generateProtocolEvents :: "timezone \<Rightarrow> protocol \<Rightarrow> profile \<Rightarrow> ProtocolEvent list option" where
  "generateProtocolEvents tz p prof = generate_loop tz p prof (startDate p) []"



section \<open>The specification's words\<close>

text \<open>
  Rounding half-up to \<open>d\<close> decimal places, and the precision the specification gives
  each unit: one decimal for the microgram unit, none for the milligram unit.
\<close>

definition round_half_up :: "nat \<Rightarrow> real \<Rightarrow> real" where
  "round_half_up d x = of_int \<lfloor>x * 10 ^ d + 1 / 2\<rfloor> / 10 ^ d"

definition spec_precision :: "dose_unit \<Rightarrow> nat" where
  "spec_precision u = (case u of microgram \<Rightarrow> 1 | mg \<Rightarrow> 0)"

text \<open>
  \<open>a\<close> is what \<open>n\<close> correctly rounded operations make of the positive exact value
  \<open>x\<close>: each rounding changes a value by at most the factor \<open>1 \<plusminus> 2\<^sup>-\<^sup>5\<^sup>3\<close>.
\<close>

definition within_roundings :: "nat \<Rightarrow> real \<Rightarrow> real \<Rightarrow> bool" where
  "within_roundings n a x =
     (0 < x \<and> x * (1 - 1 / 2 ^ 53) ^ n \<le> a \<and> a \<le> x * (1 + 1 / 2 ^ 53) ^ n)"

text \<open>
  The exact product of the five factors, with the weight factor \<open>weight / 70\<close>, and
  the dose that the specification derives from it.
\<close>

definition spec_product :: "MicrodoseCalculationParams \<Rightarrow> MicrodoseCalculationResult \<Rightarrow> real" where
  "spec_product p r =
     baseDose r * (weight p / 70) * sensitivityFactor r * goalFactor r * intakeFormFactor r"

definition spec_calculatedDose :: "MicrodoseCalculationParams \<Rightarrow> MicrodoseCalculationResult \<Rightarrow> real" where
  "spec_calculatedDose p r = round_half_up (spec_precision (doseUnit r)) (spec_product p r)"

text \<open>
  The number that \<open>k\<close> rounding steps of a unit make: \<open>k\<close> itself for the milligram
  unit, and for the microgram unit the double nearest to \<open>k / 10\<close>.
\<close>

definition dose_of_steps :: "dose_unit \<Rightarrow> int \<Rightarrow> real" where
  "dose_of_steps u k = (case u of mg \<Rightarrow> of_int k | microgram \<Rightarrow> double_round (of_int k / 10))"

text \<open>The size of one rounding step at that precision.\<close>

definition rounding_step :: "dose_unit \<Rightarrow> real" where
  "rounding_step u = 1 / 10 ^ spec_precision u"

text \<open>The static per-form multiplier, 1 for a form that is not in the table.\<close>

definition spec_intakeFormFactor :: "string \<Rightarrow> real" where
  "spec_intakeFormFactor form =
     (case map_of INTAKE_FORM_FACTORS form of Some f \<Rightarrow> f | None \<Rightarrow> 1)"

text \<open>
  The field checks of \<open>validateParams\<close> as a table: for each field whether it is
  outside its domain, and the message reported for it. The lower bound of the sensitivity
  is the double that \<^verbatim>\<open>0.3\<close> denotes.
\<close>

definition field_violations :: "MicrodoseCalculationParams \<Rightarrow> (bool \<times> string) list" where
  "field_violations p =
     [(gender p \<notin> {''male'', ''female'', ''other''}, ''Geschlecht ist erforderlich''),
      (\<not> (30 \<le> weight p \<and> weight p \<le> 200), ''Gewicht muss zwischen 30 und 200 kg liegen''),
      (substance p \<notin> {''psilocybin'', ''lsd'', ''amanita'', ''ketamine''},
         ''Substanz ist erforderlich''),
      (intakeForm p = [], ''Einnahmeform ist erforderlich''),
      (\<not> (double_round (3 / 10) \<le> sensitivity p \<and> sensitivity p \<le> 2),
         ''Empfindlichkeit muss zwischen 0.3 und 2.0 liegen''),
      (goal p \<notin> {''sub_perceptual'', ''standard'', ''upper_microdose''},
         ''Ziel ist erforderlich'')]"

text \<open>What the generator promises for the dose fields of one event.\<close>

definition dose_fields_ok :: "profile \<Rightarrow> ProtocolEvent \<Rightarrow> bool" where
  "dose_fields_ok prof e =
     ((ev_type e = ''dose'' \<and> ev_substance e = Some (profile_substance prof) \<and>
       ev_dose e = Some (profile_calculatedDose prof) \<and>
       ev_doseUnit e = Some (profile_doseUnit prof)) \<or>
      (ev_type e = ''pause'' \<and> ev_substance e = None \<and> ev_dose e = None \<and>
       ev_doseUnit e = None))"


section \<open>Example inputs\<close>

definition p_ex :: MicrodoseCalculationParams where
  "p_ex = \<lparr>gender = ''female'', weight = 70, substance = ''psilocybin'',
            intakeForm = ''dried_mushrooms'', sensitivity = 1, goal = ''standard'',
            experience = None, currentMedication = None\<rparr>"

definition prof_ex :: profile where
  "prof_ex = \<lparr>profile_substance = ''psilocybin'', profile_calculatedDose = 200,
               profile_doseUnit = ''mg''\<rparr>"

definition no_settings :: protocol_settings where
  "no_settings = \<lparr>custom = None\<rparr>"

definition custom_days :: "int list \<Rightarrow> protocol_settings" where
  "custom_days days = \<lparr>custom = Some \<lparr>doseDays = Some days\<rparr>\<rparr>"

text \<open>2024-03-25T00:00:00Z, a Monday, as a time value.\<close>

definition start_2024_03_25 :: int where
  "start_2024_03_25 = 1711324800000"

section \<open>Doubles: the error of one rounding\<close>

text \<open>
  Powers of two with integer exponents, and the exponent search: for a value in the
  normal range the exponent found is that of its binade.
\<close>

lemma powi_Suc: "(2::real) powi (e + 1) = 2 * 2 powi e"
  by (simp add: power_int_add)

lemma powi_pred: "(2::real) powi (e - 1) = 2 powi e / 2"
  by (simp add: power_int_diff)

lemma powi_mono: "a \<le> b \<Longrightarrow> (2::real) powi a \<le> 2 powi b"
  by (rule power_int_increasing) simp_all

lemma powi_less_D: "(2::real) powi a < 2 powi b \<Longrightarrow> a < b"
  by (metis not_le powi_mono)

lemma exponent_up_bounds:
  "2 powi e \<le> x \<Longrightarrow> x < 2 powi (e + int n + 1) \<Longrightarrow>
   2 powi (exponent_up n x e) \<le> x \<and> x < 2 powi (exponent_up n x e + 1)"
proof (induction n arbitrary: e)
  case 0
  then show ?case by simp
next
  case (Suc n)
  show ?case
  proof (cases "2 powi (e + 1) \<le> x")
    case True
    moreover have "x < 2 powi (e + 1 + int n + 1)"
      using Suc.prems(2) by (simp add: add.commute add.left_commute)
    ultimately show ?thesis
      using Suc.IH [of "e + 1"] by simp
  next
    case False
    with Suc.prems(1) show ?thesis by simp
  qed
qed

lemma exponent_up_lower:
  "2 powi e \<le> x \<Longrightarrow> 2 powi (exponent_up n x e) \<le> x \<and> e \<le> exponent_up n x e \<and>
     exponent_up n x e \<le> e + int n"
proof (induction n arbitrary: e)
  case 0
  then show ?case by simp
next
  case (Suc n)
  show ?case
  proof (cases "2 powi (e + 1) \<le> x")
    case True
    with Suc.IH [of "e + 1"] show ?thesis by simp
  next
    case False
    with Suc.prems show ?thesis by simp
  qed
qed

lemma exponent_down_cases:
  "x < 2 powi e \<Longrightarrow>
   (2 powi (exponent_down n x e) \<le> x \<and> x < 2 powi (exponent_down n x e + 1) \<and>
      e - int n \<le> exponent_down n x e \<and> exponent_down n x e < e) \<or>
   (exponent_down n x e = e - int n \<and> x < 2 powi (exponent_down n x e))"
proof (induction n arbitrary: e)
  case 0
  then show ?case by simp
next
  case (Suc n)
  show ?case
  proof (cases "2 powi (e - 1) \<le> x")
    case True
    with Suc.prems show ?thesis by simp
  next
    case False
    then have "x < 2 powi (e - 1)" by simp
    from Suc.IH [OF this] False show ?thesis
      by (simp add: algebra_simps) linarith
  qed
qed

lemma double_exponent_range: "- 1022 \<le> double_exponent x \<and> double_exponent x \<le> 1023"
proof (cases "1 \<le> \<bar>x\<bar>")
  case True
  then have "2 powi 0 \<le> \<bar>x\<bar>" by simp
  from exponent_up_lower [OF this, of 1023] True show ?thesis
    by (simp add: double_exponent_def)
next
  case False
  then have "\<bar>x\<bar> < 2 powi 0" by simp
  from exponent_down_cases [OF this, of 1022] False show ?thesis
    by (auto simp: double_exponent_def)
qed

lemma double_exponent_lower:
  "2 powi (double_exponent x) \<le> \<bar>x\<bar> \<or> double_exponent x = - 1022"
proof (cases "1 \<le> \<bar>x\<bar>")
  case True
  then have "2 powi 0 \<le> \<bar>x\<bar>" by simp
  from exponent_up_lower [OF this, of 1023] True show ?thesis
    by (simp add: double_exponent_def)
next
  case False
  then have "\<bar>x\<bar> < 2 powi 0" by simp
  from exponent_down_cases [OF this, of 1022] False show ?thesis
    by (auto simp: double_exponent_def)
qed

lemma double_exponent_bounds:
  assumes "2 powi (- 1022) \<le> \<bar>x\<bar>" and "\<bar>x\<bar> < 2 powi 1024"
  shows "2 powi (double_exponent x) \<le> \<bar>x\<bar> \<and> \<bar>x\<bar> < 2 powi (double_exponent x + 1)"
proof (cases "1 \<le> \<bar>x\<bar>")
  case True
  then have "2 powi 0 \<le> \<bar>x\<bar>" by simp
  moreover have "\<bar>x\<bar> < 2 powi (0 + int 1023 + 1)" using assms(2) by simp
  ultimately show ?thesis
    using exponent_up_bounds [of 0 "\<bar>x\<bar>" 1023] True by (simp add: double_exponent_def)
next
  case False
  then have lt: "\<bar>x\<bar> < 2 powi 0" by simp
  from exponent_down_cases [OF lt, of 1022]
  show ?thesis
  proof
    assume "2 powi exponent_down 1022 \<bar>x\<bar> 0 \<le> \<bar>x\<bar> \<and>
      \<bar>x\<bar> < 2 powi (exponent_down 1022 \<bar>x\<bar> 0 + 1) \<and>
      0 - int 1022 \<le> exponent_down 1022 \<bar>x\<bar> 0 \<and> exponent_down 1022 \<bar>x\<bar> 0 < 0"
    with False show ?thesis by (simp add: double_exponent_def)
  next
    assume "exponent_down 1022 \<bar>x\<bar> 0 = 0 - int 1022 \<and> \<bar>x\<bar> < 2 powi exponent_down 1022 \<bar>x\<bar> 0"
    then have "\<bar>x\<bar> < 2 powi (0 - int 1022)" by metis
    moreover have "(0::int) - int 1022 = - 1022" by simp
    ultimately have "\<bar>x\<bar> < 2 powi (- 1022)" by (simp only:)
    with assms(1) show ?thesis by linarith
  qed
qed

lemma double_exponent_unique:
  assumes "2 powi e \<le> \<bar>x\<bar>" and "\<bar>x\<bar> < 2 powi (e + 1)" and "- 1022 \<le> e" and "e \<le> 1023"
  shows "double_exponent x = e"
proof -
  have "(2::real) powi (- 1022) \<le> 2 powi e" using assms(3) by (rule powi_mono)
  with assms(1) have lo: "2 powi (- 1022) \<le> \<bar>x\<bar>" by linarith
  have "(2::real) powi (e + 1) \<le> 2 powi 1024" using assms(4) by (intro powi_mono) simp
  with assms(2) have hi: "\<bar>x\<bar> < 2 powi 1024" by linarith
  from double_exponent_bounds [OF lo hi]
  have a: "2 powi (double_exponent x) \<le> \<bar>x\<bar>" and b: "\<bar>x\<bar> < 2 powi (double_exponent x + 1)"
    by simp_all
  from a assms(2) have "(2::real) powi (double_exponent x) < 2 powi (e + 1)" by linarith
  then have "double_exponent x < e + 1" by (rule powi_less_D)
  moreover from b assms(1) have "(2::real) powi e < 2 powi (double_exponent x + 1)" by linarith
  then have "e < double_exponent x + 1" by (rule powi_less_D)
  ultimately show ?thesis by simp
qed

text \<open>
  Rounding to the nearest integer moves a value by at most one half and leaves integers
  where they are.
\<close>

lemma round_ties_even_error: "\<bar>of_int (round_ties_even y) - y\<bar> \<le> 1 / 2"
  unfolding round_ties_even_def Let_def
  by (auto simp: abs_le_iff)

lemma round_ties_even_of_int [simp]: "round_ties_even (of_int k) = k"
  by (simp add: round_ties_even_def)

lemma round_ties_even_ge: "of_int k \<le> y \<Longrightarrow> k \<le> round_ties_even y"
proof -
  assume "of_int k \<le> y"
  then have "k \<le> \<lfloor>y\<rfloor>" by (simp add: le_floor_iff)
  then show ?thesis
    unfolding round_ties_even_def Let_def by auto
qed

lemma round_ties_even_le: "y \<le> of_int k \<Longrightarrow> round_ties_even y \<le> k"
proof -
  assume a: "y \<le> of_int k"
  show ?thesis
  proof (cases "y = of_int k")
    case True
    then show ?thesis by simp
  next
    case False
    with a have "y < of_int k" by simp
    then have "\<lfloor>y\<rfloor> < k" by (simp add: floor_less_iff)
    then show ?thesis
      unfolding round_ties_even_def Let_def by auto
  qed
qed

lemma powi_minus_52: "(2::real) powi (e - 52) = 2 powi e / 2 ^ 52"
  by (simp add: power_int_diff)

text \<open>
  One rounding to a double moves a value by at most half a unit in the last place; in the
  normal range that is a relative error of at most \<open>2\<^sup>-\<^sup>5\<^sup>3\<close>.
\<close>

lemma double_round_error:
  "\<bar>double_round x - x\<bar> \<le> 2 powi (double_exponent x - 52) / 2"
proof -
  define u :: real where "u = 2 powi (double_exponent x - 52)"
  have u: "0 < u" by (simp add: u_def)
  have "\<bar>of_int (round_ties_even (x / u)) - x / u\<bar> \<le> 1 / 2"
    by (rule round_ties_even_error)
  then have "\<bar>of_int (round_ties_even (x / u)) - x / u\<bar> * u \<le> 1 / 2 * u"
    using u by (intro mult_right_mono) simp_all
  moreover have "\<bar>of_int (round_ties_even (x / u)) - x / u\<bar> * u
      = \<bar>(of_int (round_ties_even (x / u)) - x / u) * u\<bar>"
    using u by (simp add: abs_mult)
  moreover have "(of_int (round_ties_even (x / u)) - x / u) * u
      = of_int (round_ties_even (x / u)) * u - x"
    using u by (simp add: left_diff_distrib)
  ultimately show ?thesis
    unfolding double_round_def Let_def u_def [symmetric] by simp
qed

lemma double_round_bounds:
  assumes "2 powi (- 1022) \<le> x" and "x < 2 powi 1024"
  shows "x * (1 - 1 / 2 ^ 53) \<le> double_round x \<and> double_round x \<le> x * (1 + 1 / 2 ^ 53)"
proof -
  have pos: "0 < x" using assms(1) zero_less_power_int [of "2::real" "- 1022"] by linarith
  then have ax: "\<bar>x\<bar> = x" by simp
  from double_exponent_bounds [of x] assms have "2 powi (double_exponent x) \<le> x"
    by (simp only: ax)
  then have "2 powi (double_exponent x - 52) / 2 \<le> x / 2 ^ 53"
    by (simp add: powi_minus_52 field_simps)
  define d where "d = x / 2 ^ 53"
  define h :: real where "h = 2 powi (double_exponent x - 52) / 2"
  from \<open>2 powi (double_exponent x - 52) / 2 \<le> x / 2 ^ 53\<close> have "h \<le> d"
    by (simp only: d_def h_def)
  moreover from double_round_error [of x] have "\<bar>double_round x - x\<bar> \<le> h"
    by (simp only: h_def)
  ultimately have "x - d \<le> double_round x" and "double_round x \<le> x + d"
    by linarith+
  moreover have "x * (1 - 1 / 2 ^ 53) = x - d" and "x * (1 + 1 / 2 ^ 53) = x + d"
    by (simp_all add: d_def algebra_simps)
  ultimately show ?thesis
    by (simp only:)
qed

lemma double_round_0 [simp]: "double_round 0 = 0"
  by (simp add: double_round_def round_ties_even_def)

text \<open>
  Scaling by two is exact: it commutes with rounding as long as neither value is
  subnormal or overflows.
\<close>

lemma double_round_double:
  assumes "2 powi (- 1022) \<le> \<bar>x\<bar>" and "\<bar>2 * x\<bar> < 2 powi 1024"
  shows "double_round (2 * x) = 2 * double_round x"
proof -
  have "\<bar>x\<bar> < 2 powi 1024" using assms(2) by simp
  from double_exponent_bounds [OF assms(1) this]
  have lo: "2 powi (double_exponent x) \<le> \<bar>x\<bar>" and hi: "\<bar>x\<bar> < 2 powi (double_exponent x + 1)"
    by simp_all
  have ax2: "\<bar>2 * x\<bar> = 2 * \<bar>x\<bar>" by simp
  have lo2: "2 powi (double_exponent x + 1) \<le> \<bar>2 * x\<bar>"
    unfolding ax2 powi_Suc using lo by linarith
  have hi2: "\<bar>2 * x\<bar> < 2 powi (double_exponent x + 1 + 1)"
    unfolding ax2 powi_Suc [of "double_exponent x + 1"] using hi by linarith
  from lo2 assms(2) have "(2::real) powi (double_exponent x + 1) < 2 powi 1024" by linarith
  then have "double_exponent x + 1 < 1024" by (rule powi_less_D)
  then have "double_exponent x + 1 \<le> 1023" by simp
  moreover have "- 1022 \<le> double_exponent x + 1"
    using double_exponent_range [of x] by simp
  ultimately have e: "double_exponent (2 * x) = double_exponent x + 1"
    using double_exponent_unique [OF lo2 hi2] by simp
  have u: "(2::real) powi (double_exponent x + 1 - 52) = 2 * 2 powi (double_exponent x - 52)"
    by (simp add: power_int_diff power_int_add)
  show ?thesis
    unfolding double_round_def Let_def e u by simp
qed

lemma double_round_half:
  assumes "2 powi (- 1021) \<le> \<bar>x\<bar>" and "\<bar>x\<bar> < 2 powi 1024"
  shows "double_round (x / 2) = double_round x / 2"
proof -
  have "(2::real) powi (- 1022) = 2 powi (- 1021) / 2"
    using powi_pred [of "- 1021"] by simp
  with assms(1) have "2 powi (- 1022) \<le> \<bar>x / 2\<bar>" by simp
  moreover have "\<bar>2 * (x / 2)\<bar> < 2 powi 1024" using assms(2) by simp
  ultimately have "double_round (2 * (x / 2)) = 2 * double_round (x / 2)"
    by (rule double_round_double)
  then show ?thesis by simp
qed

lemma double_round_ge_one:
  assumes "1 \<le> x" and "x < 2 powi 1024"
  shows "1 \<le> double_round x"
proof -
  have ax: "\<bar>x\<bar> = x" using assms(1) by simp
  have "(2::real) powi (- 1022) \<le> 2 powi 0" by (rule powi_mono) simp
  with assms(1) have "2 powi (- 1022) \<le> \<bar>x\<bar>" by simp
  from double_exponent_bounds [OF this] assms(2)
  have lo: "2 powi (double_exponent x) \<le> x" and hi: "x < 2 powi (double_exponent x + 1)"
    by (simp_all only: ax)
  from hi assms(1) have "(2::real) powi 0 < 2 powi (double_exponent x + 1)" by simp
  then have e: "0 \<le> double_exponent x" using powi_less_D by fastforce
  define u :: real where "u = 2 powi (double_exponent x - 52)"
  have u: "0 < u" by (simp add: u_def)
  have "2 powi (double_exponent x) = 2 ^ 52 * u"
    by (simp add: u_def powi_minus_52)
  with lo have "of_int (2 ^ 52) \<le> x / u"
    using u by (simp add: pos_le_divide_eq)
  then have "2 ^ 52 \<le> round_ties_even (x / u)" by (rule round_ties_even_ge)
  then have "(2 ^ 52 :: real) \<le> of_int (round_ties_even (x / u))"
    by (metis of_int_le_iff of_int_numeral of_int_power)
  then have "2 ^ 52 * u \<le> of_int (round_ties_even (x / u)) * u"
    using u by (intro mult_right_mono) simp_all
  moreover have "(1::real) \<le> 2 powi (double_exponent x)"
    using e by simp
  ultimately show ?thesis
    unfolding double_round_def Let_def u_def [symmetric]
    using \<open>2 powi (double_exponent x) = 2 ^ 52 * u\<close> by linarith
qed

lemma double_round_ge_two:
  assumes "2 \<le> y" and "y < 2 powi 1024"
  shows "2 \<le> double_round y"
proof -
  have "(2::real) powi (- 1022) \<le> 2 powi 0" by (rule powi_mono) simp
  with assms(1) have "2 powi (- 1022) \<le> \<bar>y / 2\<bar>" by simp
  moreover have "\<bar>2 * (y / 2)\<bar> < 2 powi 1024" using assms by simp
  ultimately have "double_round (2 * (y / 2)) = 2 * double_round (y / 2)"
    by (rule double_round_double)
  then have e: "double_round y = 2 * double_round (y / 2)" by simp
  have "(0::real) < 2 powi 1024" by simp
  with assms have "y / 2 < 2 powi 1024" by linarith
  with assms(1) have "1 \<le> double_round (y / 2)"
    by (intro double_round_ge_one) simp_all
  with e show ?thesis by linarith
qed

lemma double_round_abs_le: "\<bar>double_round z\<bar> \<le> 2 * \<bar>z\<bar> + 1"
proof -
  have "2 powi (double_exponent z - 52) \<le> \<bar>z\<bar> + 1"
  proof -
    from double_exponent_lower [of z] show ?thesis
    proof
      assume "2 powi double_exponent z \<le> \<bar>z\<bar>"
      moreover have "(2::real) powi (double_exponent z - 52) \<le> 2 powi (double_exponent z)"
        by (rule powi_mono) simp
      ultimately show ?thesis by linarith
    next
      assume "double_exponent z = - 1022"
      then have "(2::real) powi (double_exponent z - 52) \<le> 2 powi 0"
        by (intro powi_mono) simp
      then show ?thesis by simp
    qed
  qed
  with double_round_error [of z] show ?thesis by linarith
qed

text \<open>
  The overflow threshold \<open>2\<^sup>1\<^sup>0\<^sup>2\<^sup>4\<close> as a numeral, and values far below it: their
  rounding is finite.
\<close>

lemma overflow_bound_code [code]:
  "overflow_bound = 179769313486231590772930519078902473361797697894230657273430081157732675805500963132708477322407536021120113879871393357658789768814416622492847430639474124377767893424865485276302219601246094119453082952085005768838150682342462881473913110540827237163350510684586298239947245938479716304835356329624224137216"
  by (simp add: overflow_bound_def)

lemma round_to_double_small:
  assumes "\<bar>z\<bar> \<le> 2 powi 1000"
  shows "round_to_double z = Finite (double_round z)"
proof -
  have "(2::real) powi (1000 + 1) = 2 * 2 powi 1000" by (rule powi_Suc)
  moreover have "(2::real) powi (1000 + 1 + 1) = 2 * 2 powi (1000 + 1)" by (rule powi_Suc)
  moreover have "(2::real) powi (1000 + 1 + 1) \<le> 2 powi 1024" by (rule powi_mono) simp
  moreover have "(1::real) \<le> 2 powi 1000" by simp
  ultimately have "2 * \<bar>z\<bar> + 1 < 2 powi 1024" using assms by linarith
  with double_round_abs_le [of z] have "\<bar>double_round z\<bar> < overflow_bound"
    unfolding overflow_bound_def by linarith
  then show ?thesis
    by (simp add: round_to_double_def Let_def)
qed

section \<open>Chains of rounded operations\<close>

text \<open>
  Up to seven roundings change a positive value by less than the factor
  \<open>1 \<plusminus> 2\<^sup>-\<^sup>5\<^sup>0\<close>.
\<close>

lemma one_plus_u_power:
  assumes "n \<le> 7"
  shows "(1 + 1 / 2 ^ 53 :: real) ^ n \<le> 1 + 1 / 2 ^ 50"
proof -
  have "(1 + 1 / 2 ^ 53 :: real) ^ n \<le> (1 + 1 / 2 ^ 53) ^ 7"
    using assms by (intro power_increasing) simp_all
  also have "\<dots> \<le> 1 + 1 / 2 ^ 50" by (simp add: power_divide)
  finally show ?thesis .
qed

lemma one_minus_u_power:
  assumes "n \<le> 7"
  shows "1 - 1 / 2 ^ 50 \<le> (1 - 1 / 2 ^ 53 :: real) ^ n"
proof -
  have "(1 - 1 / 2 ^ 53 :: real) ^ 7 \<le> (1 - 1 / 2 ^ 53) ^ n"
    using assms by (intro power_decreasing) simp_all
  moreover have "1 - 1 / 2 ^ 50 \<le> (1 - 1 / 2 ^ 53 :: real) ^ 7" by (simp add: power_divide)
  ultimately show ?thesis by linarith
qed

lemma within_roundings_exact: "0 < x \<Longrightarrow> within_roundings 0 x x"
  by (simp add: within_roundings_def)

lemma within_roundings_mult_right:
  assumes "within_roundings n a x" and "0 < y"
  shows "within_roundings n (a * y) (x * y)"
proof -
  from assms(1) have x: "0 < x" and lo: "x * (1 - 1 / 2 ^ 53) ^ n \<le> a"
    and hi: "a \<le> x * (1 + 1 / 2 ^ 53) ^ n"
    by (simp_all add: within_roundings_def)
  from lo assms(2) have "x * (1 - 1 / 2 ^ 53) ^ n * y \<le> a * y"
    by (intro mult_right_mono) simp_all
  moreover from hi assms(2) have "a * y \<le> x * (1 + 1 / 2 ^ 53) ^ n * y"
    by (intro mult_right_mono) simp_all
  ultimately show ?thesis
    using x assms(2) by (simp add: within_roundings_def mult.assoc mult.left_commute mult.commute)
qed

lemma within_roundings_mult_left:
  assumes "within_roundings n a x" and "0 < y"
  shows "within_roundings n (y * a) (y * x)"
  using within_roundings_mult_right [OF assms] by (simp add: mult.commute)

lemma within_roundings_close:
  assumes "within_roundings n a x" and "n \<le> 7"
  shows "x - x / 2 ^ 50 \<le> a \<and> a \<le> x + x / 2 ^ 50"
proof -
  from assms(1) have x: "0 < x" and lo: "x * (1 - 1 / 2 ^ 53) ^ n \<le> a"
    and hi: "a \<le> x * (1 + 1 / 2 ^ 53) ^ n"
    by (simp_all add: within_roundings_def)
  have "x * (1 - 1 / 2 ^ 50) \<le> x * (1 - 1 / 2 ^ 53) ^ n"
    using x one_minus_u_power [OF assms(2)] by (intro mult_left_mono) simp_all
  moreover have "x * (1 + 1 / 2 ^ 53) ^ n \<le> x * (1 + 1 / 2 ^ 50)"
    using x one_plus_u_power [OF assms(2)] by (intro mult_left_mono) simp_all
  ultimately have "x * (1 - 1 / 2 ^ 50) \<le> a" and "a \<le> x * (1 + 1 / 2 ^ 50)"
    using lo hi by (blast intro: order_trans)+
  moreover have "x * (1 - 1 / 2 ^ 50) = x - x / 2 ^ 50"
    by (simp add: algebra_simps)
  moreover have "x * (1 + 1 / 2 ^ 50) = x + x / 2 ^ 50"
    by (simp add: algebra_simps)
  ultimately show ?thesis by (simp only:)
qed

lemma within_roundings_rough:
  assumes "within_roundings n a x" and "n \<le> 7"
  shows "x / 2 \<le> a \<and> a \<le> 2 * x"
proof -
  from assms(1) have x: "0 < x" by (simp add: within_roundings_def)
  then have "x / 2 ^ 50 \<le> x / 2" by (simp add: field_simps)
  with within_roundings_close [OF assms] x show ?thesis by linarith
qed

text \<open>
  One more rounding of a value that is the result of \<open>n\<close> roundings and far from
  overflow and underflow: the result is finite, it is the result of \<open>n + 1\<close>
  roundings, and doubling or halving the value doubles or halves the result.
\<close>

lemma round_step:
  assumes w: "within_roundings n a x" and n: "n \<le> 6"
    and lo: "2 powi (- 1000) \<le> x" and hi: "x \<le> 2 powi 1000"
  shows "round_to_double a = Finite (double_round a)"
    and "within_roundings (Suc n) (double_round a) x"
    and "round_to_double (2 * a) = Finite (2 * double_round a)"
    and "round_to_double (a / 2) = Finite (double_round a / 2)"
proof -
  from w have x: "0 < x" and wlo: "x * (1 - 1 / 2 ^ 53) ^ n \<le> a"
    and whi: "a \<le> x * (1 + 1 / 2 ^ 53) ^ n"
    by (simp_all add: within_roundings_def)
  from n have n7: "n \<le> 7" by simp
  from within_roundings_rough [OF w n7] have a_lo: "x / 2 \<le> a" and a_hi: "a \<le> 2 * x"
    by simp_all
  define L :: real where "L = 2 powi (- 1000 - 1)"
  define H :: real where "H = 2 powi (1000 + 1)"
  have p1: "L = 2 powi (- 1000) / 2" unfolding L_def by (rule powi_pred)
  have p2: "H = 2 * 2 powi 1000" unfolding H_def by (rule powi_Suc)
  have m1: "2 powi (- 1021) \<le> L" unfolding L_def by (rule powi_mono) simp
  have m2: "(2::real) powi (- 1022) \<le> 2 powi (- 1021)" by (rule powi_mono) simp
  have m3: "H \<le> 2 powi 1021" unfolding H_def by (rule powi_mono) simp
  have m4: "(2::real) powi (1021 + 1) = 2 * 2 powi 1021" by (rule powi_Suc)
  have m5: "(2::real) powi (1021 + 1 + 1) = 2 * 2 powi (1021 + 1)" by (rule powi_Suc)
  have m6: "(2::real) powi (1021 + 1 + 1 + 1) = 2 * 2 powi (1021 + 1 + 1)" by (rule powi_Suc)
  have m7: "(2::real) powi (1021 + 1 + 1 + 1) = 2 powi 1024" by simp
  have pos: "(0::real) < 2 powi 1021" by simp
  from a_lo lo p1 have a1001: "L \<le> a" by linarith
  from a_hi hi p2 have a1001': "a \<le> H" by linarith
  have a_pos: "0 < a" using a_lo x by linarith
  have norm: "2 powi (- 1022) \<le> a" using a1001 m1 m2 by linarith
  have norm21: "2 powi (- 1021) \<le> \<bar>a\<bar>" using a1001 m1 a_pos by linarith
  have big: "8 * 2 powi 1021 = (2::real) powi 1024" using m4 m5 m6 m7 by linarith
  have small: "a < 2 powi 1024" using a1001' m3 big pos by linarith
  have small2: "\<bar>2 * a\<bar> < 2 powi 1024" using a1001' m3 big pos a_pos by linarith
  from double_round_bounds [OF norm small]
  have b_lo: "a * (1 - 1 / 2 ^ 53) \<le> double_round a"
    and b_hi: "double_round a \<le> a * (1 + 1 / 2 ^ 53)"
    by simp_all
  have "x * (1 - 1 / 2 ^ 53) ^ n * (1 - 1 / 2 ^ 53) \<le> a * (1 - 1 / 2 ^ 53)"
    using wlo by (intro mult_right_mono) simp_all
  moreover have "a * (1 + 1 / 2 ^ 53) \<le> x * (1 + 1 / 2 ^ 53) ^ n * (1 + 1 / 2 ^ 53)"
    using whi by (intro mult_right_mono) simp_all
  ultimately show tr: "within_roundings (Suc n) (double_round a) x"
    using x b_lo b_hi by (simp add: within_roundings_def mult.assoc)
  have "Suc n \<le> 7" using n by simp
  from within_roundings_rough [OF tr this] have r_lo: "x / 2 \<le> double_round a"
    and r_hi: "double_round a \<le> 2 * x"
    by simp_all
  have r_pos: "0 < double_round a" using r_lo x by linarith
  have r_small: "2 * double_round a < 2 powi 1024"
    using r_hi hi p2 m3 big pos by linarith
  show "round_to_double a = Finite (double_round a)"
    using r_pos r_small by (simp add: round_to_double_def overflow_bound_def Let_def del: power_int_numeral)
  have d: "double_round (2 * a) = 2 * double_round a"
    using norm small2 a_pos by (intro double_round_double) simp_all
  show "round_to_double (2 * a) = Finite (2 * double_round a)"
    using r_pos r_small by (simp add: round_to_double_def overflow_bound_def Let_def d del: power_int_numeral)
  have h: "double_round (a / 2) = double_round a / 2"
    using norm21 small a_pos by (intro double_round_half) simp_all
  show "round_to_double (a / 2) = Finite (double_round a / 2)"
    using r_pos r_small by (simp add: round_to_double_def overflow_bound_def Let_def h del: power_int_numeral)
qed

lemma powi_range_mult:
  fixes x y :: real
  assumes "2 powi a \<le> x" and "x \<le> 2 powi b" and "2 powi c \<le> y" and "y \<le> 2 powi d"
  shows "2 powi (a + c) \<le> x * y" and "x * y \<le> 2 powi (b + d)"
proof -
  have pa: "(0::real) < 2 powi a" and pc: "(0::real) < 2 powi c" by simp_all
  from pa assms(1) have x: "0 < x" by linarith
  from pc assms(3) have y: "0 < y" by linarith
  have "(2::real) powi a * 2 powi c \<le> x * y"
    using assms(1,3) x y by (intro mult_mono) simp_all
  then show "2 powi (a + c) \<le> x * y" by (simp add: power_int_add)
  have "x * y \<le> 2 powi b * 2 powi d"
    using assms(2,4) x y by (intro mult_mono) simp_all
  then show "x * y \<le> 2 powi (b + d)" by (simp add: power_int_add)
qed

lemma powi_range_1000:
  fixes x :: real
  assumes "2 powi a \<le> x" and "x \<le> 2 powi b" and "- 1000 \<le> a" and "b \<le> 1000"
  shows "2 powi (- 1000) \<le> x" and "x \<le> 2 powi 1000"
proof -
  have "(2::real) powi (- 1000) \<le> 2 powi a" using assms(3) by (rule powi_mono)
  with assms(1) show "2 powi (- 1000) \<le> x" by linarith
  have "(2::real) powi b \<le> 2 powi 1000" using assms(4) by (rule powi_mono)
  with assms(2) show "x \<le> 2 powi 1000" by linarith
qed

text \<open>
  The same for one multiplication by an exact factor \<open>y\<close>.
\<close>

lemma multiply_step:
  assumes w: "within_roundings n a x" and n: "n \<le> 5"
    and x: "2 powi lo \<le> x" "x \<le> 2 powi hi"
    and y: "2 powi lo' \<le> y" "y \<le> 2 powi hi'"
    and r: "- 1000 \<le> lo + lo'" "hi + hi' \<le> 1000"
  shows "multiply (Finite a) (Finite y) = Finite (double_round (a * y))"
    and "within_roundings (Suc n) (double_round (a * y)) (x * y)"
    and "multiply (Finite (2 * a)) (Finite y) = Finite (2 * double_round (a * y))"
    and "multiply (Finite (a / 2)) (Finite y) = Finite (double_round (a * y) / 2)"
    and "2 powi (lo + lo') \<le> x * y"
    and "x * y \<le> 2 powi (hi + hi')"
proof -
  have ypos: "0 < y" using y(1) zero_less_power_int [of "2::real" lo'] by linarith
  note xy = powi_range_mult [OF x y]
  note xy1000 = powi_range_1000 [OF xy r]
  have w': "within_roundings n (a * y) (x * y)"
    using w ypos by (rule within_roundings_mult_right)
  have n6: "n \<le> 6" using n by simp
  note s = round_step [OF w' n6 xy1000]
  show "multiply (Finite a) (Finite y) = Finite (double_round (a * y))"
    using s(1) by simp
  show "within_roundings (Suc n) (double_round (a * y)) (x * y)"
    by (rule s(2))
  show "multiply (Finite (2 * a)) (Finite y) = Finite (2 * double_round (a * y))"
    using s(3) by (simp add: mult.assoc)
  show "multiply (Finite (a / 2)) (Finite y) = Finite (double_round (a * y) / 2)"
    using s(4) by simp
  show "2 powi (lo + lo') \<le> x * y" by (rule xy(1))
  show "x * y \<le> 2 powi (hi + hi')" by (rule xy(2))
qed

lemma multiply_commute: "multiply a b = multiply b a"
  by (cases a; cases b) (simp_all add: mult.commute)

text \<open>
  The five-factor product of line 28 for factors in the ranges that valid inputs and the
  tables give (the weight factor between \<open>2\<^sup>V\<close> and \<open>2\<^sup>W\<close>): it is finite, the
  result of five roundings of the exact product; doubling the weight doubles it, and
  halving or doubling the goal factor halves or doubles it. The further product with 10 is
  what the rounding to one decimal place computes first.
\<close>

lemma dose_chain:
  fixes bd w s g f :: real
  assumes bd: "2 powi 3 \<le> bd" "bd \<le> 2 powi 8"
    and w: "2 powi V \<le> w / 70" "w / 70 \<le> 2 powi W" and W: "- 100 \<le> V" "W \<le> 100"
    and s: "2 powi (- 2) \<le> s" "s \<le> 2 powi 1"
    and g: "2 powi (- 1) \<le> g" "g \<le> 2 powi 1"
    and f: "2 powi (- 7) \<le> f" "f \<le> 2 powi 4"
  defines "wF \<equiv> double_round (w / 70)"
    and "p2 \<equiv> double_round (double_round (double_round (w / 70) * bd) * s)"
  defines "p4 \<equiv> double_round (double_round (p2 * g) * f)"
  shows "divide_by (Finite w) 70 = Finite wF"
    and "divide_by (Finite (2 * w)) 70 = Finite (2 * wF)"
    and "dose_product bd (Finite wF) s g f = Finite p4"
    and "dose_product bd (Finite (2 * wF)) s g f = Finite (2 * p4)"
    and "dose_product bd (Finite wF) s (g / 2) f = Finite (p4 / 2)"
    and "dose_product bd (Finite wF) s (2 * g) f = Finite (2 * p4)"
    and "within_roundings 5 p4 (w / 70 * bd * s * g * f)"
    and "multiply (Finite p4) (Finite 10) = Finite (double_round (p4 * 10))"
    and "multiply (Finite (2 * p4)) (Finite 10) = Finite (2 * double_round (p4 * 10))"
    and "multiply (Finite (p4 / 2)) (Finite 10) = Finite (double_round (p4 * 10) / 2)"
    and "within_roundings 6 (double_round (p4 * 10)) (w / 70 * bd * s * g * f * 10)"
    and "2 powi (V - 4) \<le> w / 70 * bd * s * g * f * 10"
    and "w / 70 * bd * s * g * f * 10 \<le> 2 powi (W + 18)"
proof -
  have wpos: "0 < w / 70" using w(1) zero_less_power_int [of "2::real" V] by linarith
  have ten: "2 powi 3 \<le> (10::real)" "(10::real) \<le> 2 powi 4" by simp_all
  note w1000 = powi_range_1000 [OF w]
  have w0: "within_roundings 0 (w / 70) (w / 70)"
    using wpos by (rule within_roundings_exact)
  have r0: "- 1000 \<le> V" "W \<le> 1000" using W by simp_all
  note a = round_step [OF w0 _ w1000 [OF r0]]
  have a1: "round_to_double (w / 70) = Finite wF" unfolding wF_def by (rule a(1)) simp
  have a2: "within_roundings (Suc 0) wF (w / 70)" unfolding wF_def by (rule a(2)) simp
  have a3: "round_to_double (2 * (w / 70)) = Finite (2 * wF)" unfolding wF_def by (rule a(3)) simp
  show "divide_by (Finite w) 70 = Finite wF" using a1 by simp
  show "divide_by (Finite (2 * w)) 70 = Finite (2 * wF)" using a3 by simp
  have rb: "- 1000 \<le> V + 3" "W + 8 \<le> 1000" using W by simp_all
  note b = multiply_step [OF a2 _ w bd rb]
  define p1 where "p1 = double_round (wF * bd)"
  have b1: "multiply (Finite wF) (Finite bd) = Finite p1" unfolding p1_def by (rule b(1)) simp
  have b2: "within_roundings (Suc (Suc 0)) p1 (w / 70 * bd)" unfolding p1_def by (rule b(2)) simp
  have b3: "multiply (Finite (2 * wF)) (Finite bd) = Finite (2 * p1)"
    unfolding p1_def by (rule b(3)) simp
  have b5: "2 powi (V + 3) \<le> w / 70 * bd" by (rule b(5)) simp
  have b6: "w / 70 * bd \<le> 2 powi (W + 8)" by (rule b(6)) simp
  have rc: "- 1000 \<le> V + 3 + (- 2::int)" "W + 8 + 1 \<le> 1000" using W by simp_all
  note c = multiply_step [OF b2 _ b5 b6 s rc]
  have p2: "p2 = double_round (p1 * s)" by (simp add: p2_def p1_def wF_def)
  have c1: "multiply (Finite p1) (Finite s) = Finite p2" unfolding p2 by (rule c(1)) simp
  have c2: "within_roundings (Suc (Suc (Suc 0))) p2 (w / 70 * bd * s)"
    unfolding p2 by (rule c(2)) simp
  have c3: "multiply (Finite (2 * p1)) (Finite s) = Finite (2 * p2)"
    unfolding p2 by (rule c(3)) simp
  have c5: "2 powi (V + 3 + - 2) \<le> w / 70 * bd * s" by (rule c(5)) simp
  have c6: "w / 70 * bd * s \<le> 2 powi (W + 8 + 1)" by (rule c(6)) simp
  have rd: "- 1000 \<le> V + 3 + - 2 + (- 1::int)" "W + 8 + 1 + 1 \<le> 1000" using W by simp_all
  note d = multiply_step [OF c2 _ c5 c6 g rd]
  define p3 where "p3 = double_round (p2 * g)"
  have d1: "multiply (Finite p2) (Finite g) = Finite p3" unfolding p3_def by (rule d(1)) simp
  have d2: "within_roundings (Suc (Suc (Suc (Suc 0)))) p3 (w / 70 * bd * s * g)"
    unfolding p3_def by (rule d(2)) simp
  have d3: "multiply (Finite (2 * p2)) (Finite g) = Finite (2 * p3)"
    unfolding p3_def by (rule d(3)) simp
  have d5: "2 powi (V + 3 + - 2 + - 1) \<le> w / 70 * bd * s * g" by (rule d(5)) simp
  have d6: "w / 70 * bd * s * g \<le> 2 powi (W + 8 + 1 + 1)" by (rule d(6)) simp
  have wd: "within_roundings (Suc (Suc (Suc 0))) (p2 * g) (w / 70 * bd * s * g)"
    using c2 g(1) zero_less_power_int [of "2::real" "- 1"]
    by (intro within_roundings_mult_right) simp_all
  have rd': "- 1000 \<le> V + 3 + - 2 + (- 1::int)" "W + 8 + 1 + 1 \<le> 1000" using W by simp_all
  note dd = round_step [OF wd _ powi_range_1000 [OF d5 d6 rd']]
  have d7: "multiply (Finite p2) (Finite (g / 2)) = Finite (p3 / 2)"
    unfolding p3_def using dd(4) by simp
  have d8: "multiply (Finite p2) (Finite (2 * g)) = Finite (2 * p3)"
    unfolding p3_def using dd(3) by (simp add: mult.left_commute)
  have re: "- 1000 \<le> V + 3 + - 2 + - 1 + (- 7::int)" "W + 8 + 1 + 1 + 4 \<le> 1000"
    using W by simp_all
  note e = multiply_step [OF d2 _ d5 d6 f re]
  have p4: "p4 = double_round (p3 * f)" by (simp add: p4_def p3_def)
  have e1: "multiply (Finite p3) (Finite f) = Finite p4" unfolding p4 by (rule e(1)) simp
  have e2: "within_roundings (Suc (Suc (Suc (Suc (Suc 0))))) p4 (w / 70 * bd * s * g * f)"
    unfolding p4 by (rule e(2)) simp
  have e3: "multiply (Finite (2 * p3)) (Finite f) = Finite (2 * p4)"
    unfolding p4 by (rule e(3)) simp
  have e4: "multiply (Finite (p3 / 2)) (Finite f) = Finite (p4 / 2)"
    unfolding p4 by (rule e(4)) simp
  have e5: "2 powi (V + 3 + - 2 + - 1 + - 7) \<le> w / 70 * bd * s * g * f" by (rule e(5)) simp
  have e6: "w / 70 * bd * s * g * f \<le> 2 powi (W + 8 + 1 + 1 + 4)" by (rule e(6)) simp
  have bw: "multiply (Finite bd) (Finite wF) = Finite p1"
    using b1 by (simp only: multiply_commute)
  have bw2: "multiply (Finite bd) (Finite (2 * wF)) = Finite (2 * p1)"
    using b3 by (simp only: multiply_commute)
  show "dose_product bd (Finite wF) s g f = Finite p4"
    unfolding dose_product_def bw c1 d1 e1 ..
  show "dose_product bd (Finite (2 * wF)) s g f = Finite (2 * p4)"
    unfolding dose_product_def bw2 c3 d3 e3 ..
  show "dose_product bd (Finite wF) s (g / 2) f = Finite (p4 / 2)"
    unfolding dose_product_def bw c1 d7 e4 ..
  show "dose_product bd (Finite wF) s (2 * g) f = Finite (2 * p4)"
    unfolding dose_product_def bw c1 d8 e3 ..
  show "within_roundings 5 p4 (w / 70 * bd * s * g * f)"
    using e2 by (simp add: eval_nat_numeral)
  have rf: "- 1000 \<le> V + 3 + - 2 + - 1 + - 7 + 3" "W + 8 + 1 + 1 + 4 + 4 \<le> 1000"
    using W by simp_all
  note t = multiply_step [OF e2 _ e5 e6 ten rf]
  show "multiply (Finite p4) (Finite 10) = Finite (double_round (p4 * 10))"
    by (rule t(1)) simp
  show "multiply (Finite (2 * p4)) (Finite 10) = Finite (2 * double_round (p4 * 10))"
    by (rule t(3)) simp
  show "multiply (Finite (p4 / 2)) (Finite 10) = Finite (double_round (p4 * 10) / 2)"
    by (rule t(4)) simp
  have "within_roundings (Suc (Suc (Suc (Suc (Suc (Suc 0)))))) (double_round (p4 * 10))
          (w / 70 * bd * s * g * f * 10)"
    by (rule t(2)) simp
  then show "within_roundings 6 (double_round (p4 * 10)) (w / 70 * bd * s * g * f * 10)"
    by (simp add: eval_nat_numeral)
  have "2 powi (V + 3 + - 2 + - 1 + - 7 + 3) \<le> w / 70 * bd * s * g * f * 10"
    by (rule t(5)) simp
  then show "2 powi (V - 4) \<le> w / 70 * bd * s * g * f * 10" by simp
  have "w / 70 * bd * s * g * f * 10 \<le> 2 powi (W + 8 + 1 + 1 + 4 + 4)"
    by (rule t(6)) simp
  then show "w / 70 * bd * s * g * f * 10 \<le> 2 powi (W + 18)" by (simp add: add.assoc)
qed

section \<open>The dose calculator: table lookups and the result of \<open>calculate\<close>\<close>

lemma double_round_hundredth: "double_round (1 / 100) = 5764607523034235 / 576460752303423488"
  by code_simp

lemma get_property_Own: "map_of obj k = Some v \<Longrightarrow> get_property obj k = Own v"
  by (simp add: get_property_def)

lemma INTAKE_FORM_FACTORS_nonzero: "map_of INTAKE_FORM_FACTORS k = Some f \<Longrightarrow> f \<noteq> 0"
  by (simp add: INTAKE_FORM_FACTORS_def double_round_hundredth split: if_splits)

lemma spec_intakeFormFactor_range:
  "2 powi (- 7) \<le> spec_intakeFormFactor k \<and> spec_intakeFormFactor k \<le> 2 powi 4"
  by (simp add: spec_intakeFormFactor_def INTAKE_FORM_FACTORS_def double_round_hundredth)

lemma SUBSTANCE_BASE_DOSES_range:
  "map_of SUBSTANCE_BASE_DOSES s = Some sd \<Longrightarrow>
     2 powi 3 \<le> sd_baseDose sd \<and> sd_baseDose sd \<le> 2 powi 8"
  by (auto simp: SUBSTANCE_BASE_DOSES_def split: if_splits)

lemma SUBSTANCE_BASE_DOSES_valid:
  "s \<in> {''psilocybin'', ''lsd'', ''amanita'', ''ketamine''} \<Longrightarrow>
     \<exists>sd. map_of SUBSTANCE_BASE_DOSES s = Some sd"
  by (elim insertE emptyE) (simp_all add: SUBSTANCE_BASE_DOSES_def)

lemma GOAL_FACTORS_valid:
  "g \<in> {''sub_perceptual'', ''standard'', ''upper_microdose''} \<Longrightarrow>
     map_of GOAL_FACTORS g = Some (1 / 2) \<or> map_of GOAL_FACTORS g = Some 1 \<or>
     map_of GOAL_FACTORS g = Some 2"
  by (elim insertE emptyE) (simp_all add: GOAL_FACTORS_def)

lemma GOAL_FACTORS_some:
  "k \<in> {''sub_perceptual'', ''standard'', ''upper_microdose''} \<Longrightarrow>
     \<exists>g. map_of GOAL_FACTORS k = Some g"
  using GOAL_FACTORS_valid [of k] by blast

lemma GOAL_FACTORS_range:
  "map_of GOAL_FACTORS k = Some g \<Longrightarrow> 2 powi (- 1) \<le> g \<and> g \<le> 2 powi 1"
  by (auto simp: GOAL_FACTORS_def split: if_splits)

lemma unit_microgram_iff_lsd:
  "map_of SUBSTANCE_BASE_DOSES s = Some sd \<Longrightarrow> (sd_unit sd = microgram) = (s = ''lsd'')"
  by (auto simp: SUBSTANCE_BASE_DOSES_def split: if_splits)

text \<open>No key of the intake-form table is a name inherited from \<^verbatim>\<open>Object.prototype\<close>.\<close>

lemma prototype_key_not_intake_form:
  "k \<in> set Object_prototype_keys \<Longrightarrow> map_of INTAKE_FORM_FACTORS k = None"
  by (simp add: Object_prototype_keys_def INTAKE_FORM_FACTORS_def) (elim disjE; simp)

lemma intake_lookup:
  assumes "k \<notin> set Object_prototype_keys"
  shows "or_default (get_property INTAKE_FORM_FACTORS k) 1 = Own (spec_intakeFormFactor k)"
proof (cases "map_of INTAKE_FORM_FACTORS k")
  case None
  with assms show ?thesis
    by (simp add: get_property_def or_default_def spec_intakeFormFactor_def)
next
  case (Some f)
  then have "f \<noteq> 0" by (rule INTAKE_FORM_FACTORS_nonzero)
  with Some show ?thesis
    by (simp add: get_property_def or_default_def spec_intakeFormFactor_def)
qed

text \<open>
  With a substance and a goal from the tables and an intake form that is not an inherited
  name, \<open>calculate\<close> returns, and this is the object it returns.
\<close>

lemma calculate_returns:
  assumes "map_of SUBSTANCE_BASE_DOSES (substance p) = Some sd"
    and "map_of GOAL_FACTORS (goal p) = Some g"
    and "intakeForm p \<notin> set Object_prototype_keys"
  shows "calculate p =
    Inr \<lparr>calculatedDose = roundedDose (substance p)
           (dose_product (sd_baseDose sd) (divide_by (Finite (weight p)) 70) (sensitivity p) g
              (spec_intakeFormFactor (intakeForm p))),
         doseUnit = sd_unit sd, baseDose = sd_baseDose sd,
         weightFactor = divide_by (Finite (weight p)) 70,
         sensitivityFactor = sensitivity p, goalFactor = g,
         intakeFormFactor = spec_intakeFormFactor (intakeForm p)\<rparr>"
proof -
  have 1: "get_property SUBSTANCE_BASE_DOSES (substance p) = Own sd"
    using assms(1) by (rule get_property_Own)
  have 2: "get_property GOAL_FACTORS (goal p) = Own g"
    using assms(2) by (rule get_property_Own)
  have 3: "or_default (get_property INTAKE_FORM_FACTORS (intakeForm p)) 1
             = Own (spec_intakeFormFactor (intakeForm p))"
    using assms(3) by (rule intake_lookup)
  show ?thesis
    unfolding calculate_def 1 2 3 by (simp add: generateExplanation_def Let_def)
qed

text \<open>
  The ranges of the weight factor and of the sensitivity for valid inputs, and of the
  weight factor for weights far outside the valid range.
\<close>

lemma valid_weight_range:
  "30 \<le> w \<Longrightarrow> w \<le> 200 \<Longrightarrow> 2 powi (- 2) \<le> w / 70 \<and> w / 70 \<le> 2 powi 2" for w :: real
  by simp


lemma double_round_three_tenths:
  "double_round (3 / 10) = 5404319552844595 / 18014398509481984"
  by code_simp

lemma valid_sensitivity_range:
  "double_round (3 / 10) \<le> s \<Longrightarrow> s \<le> 2 \<Longrightarrow> 2 powi (- 2) \<le> s \<and> s \<le> 2 powi 1"
  by (simp add: double_round_three_tenths)

section \<open>Rounding\<close>

text \<open>
  \<open>round_half_up d x\<close> is the multiple of \<open>10\<^sup>-\<^sup>d\<close> nearest to \<open>x\<close>, a tie going
  up: \<open>x\<close> lies at most half a step below it and less than half a step above it.
\<close>

lemma round_half_up_nearest:
  "round_half_up d x - 1 / (2 * 10 ^ d) \<le> x \<and> x < round_half_up d x + 1 / (2 * 10 ^ d)"
proof -
  define h :: real where "h = 10 ^ d"
  define k where "k = \<lfloor>x * h + 1 / 2\<rfloor>"
  have pos: "0 < h" by (simp add: h_def)
  have "of_int k \<le> x * h + 1 / 2" and "x * h + 1 / 2 < of_int k + 1"
    unfolding k_def by linarith+
  then have lo: "of_int k - 1 / 2 \<le> x * h" and hi: "x * h < of_int k + 1 / 2"
    by linarith+
  have "(of_int k - 1 / 2) / h \<le> x"
    using lo pos by (simp only: pos_divide_le_eq)
  moreover have "x < (of_int k + 1 / 2) / h"
    using hi pos by (simp only: pos_less_divide_eq)
  moreover have "(of_int k - 1 / 2) / h = of_int k / h - 1 / (2 * h)"
    by (simp only: diff_divide_distrib divide_divide_eq_left mult.commute)
  moreover have "(of_int k + 1 / 2) / h = of_int k / h + 1 / (2 * h)"
    by (simp only: add_divide_distrib divide_divide_eq_left mult.commute)
  ultimately show ?thesis
    unfolding round_half_up_def h_def [symmetric] k_def [symmetric] by simp
qed

text \<open>
  \<^verbatim>\<open>Math.round\<close> of a value that is the result of at most seven roundings of
  \<open>x * 10\<^sup>d\<close>: divided by \<open>10\<^sup>d\<close>, it lies between the half-up roundings of
  \<open>x\<close> lowered and raised by the factor \<open>2\<^sup>-\<^sup>5\<^sup>0\<close>.
\<close>

lemma Math_round_bracket:
  assumes "within_roundings n a (x * 10 ^ d)" and "n \<le> 7"
  shows "round_half_up d (x - x / 2 ^ 50) \<le> of_int \<lfloor>a + 1 / 2\<rfloor> / 10 ^ d"
    and "of_int \<lfloor>a + 1 / 2\<rfloor> / 10 ^ d \<le> round_half_up d (x + x / 2 ^ 50)"
proof -
  define X where "X = x * 10 ^ d"
  from within_roundings_close [OF assms]
  have lo: "X - X / 2 ^ 50 \<le> a" and hi: "a \<le> X + X / 2 ^ 50"
    by (simp_all add: X_def)
  have e1: "(x - x / 2 ^ 50) * 10 ^ d = X - X / 2 ^ 50"
    by (simp add: X_def left_diff_distrib)
  have e2: "(x + x / 2 ^ 50) * 10 ^ d = X + X / 2 ^ 50"
    by (simp add: X_def distrib_right)
  have "\<lfloor>(x - x / 2 ^ 50) * 10 ^ d + 1 / 2\<rfloor> \<le> \<lfloor>a + 1 / 2\<rfloor>"
    unfolding e1 using lo by (intro floor_mono) simp
  then have "(of_int \<lfloor>(x - x / 2 ^ 50) * 10 ^ d + 1 / 2\<rfloor> :: real) \<le> of_int \<lfloor>a + 1 / 2\<rfloor>"
    by (simp only: of_int_le_iff)
  then show "round_half_up d (x - x / 2 ^ 50) \<le> of_int \<lfloor>a + 1 / 2\<rfloor> / 10 ^ d"
    unfolding round_half_up_def by (intro divide_right_mono) simp_all
  have "\<lfloor>a + 1 / 2\<rfloor> \<le> \<lfloor>(x + x / 2 ^ 50) * 10 ^ d + 1 / 2\<rfloor>"
    unfolding e2 using hi by (intro floor_mono) simp
  then have "(of_int \<lfloor>a + 1 / 2\<rfloor> :: real) \<le> of_int \<lfloor>(x + x / 2 ^ 50) * 10 ^ d + 1 / 2\<rfloor>"
    by (simp only: of_int_le_iff)
  then show "of_int \<lfloor>a + 1 / 2\<rfloor> / 10 ^ d \<le> round_half_up d (x + x / 2 ^ 50)"
    unfolding round_half_up_def by (intro divide_right_mono) simp_all
qed

text \<open>
  The two branches of lines 31-33 on a finite product.
\<close>

lemma roundedDose_mg:
  "s \<noteq> ''lsd'' \<Longrightarrow> roundedDose s (Finite R) = Finite (of_int \<lfloor>R + 1 / 2\<rfloor>)"
  by (simp add: roundedDose_def)

lemma roundedDose_lsd:
  assumes "multiply (Finite R) (Finite 10) = Finite t" and "0 \<le> t" and "t \<le> 2 powi 999"
  shows "roundedDose ''lsd'' (Finite R) = Finite (double_round (of_int \<lfloor>t + 1 / 2\<rfloor> / 10))"
proof -
  define k where "k = \<lfloor>t + 1 / 2\<rfloor>"
  have k0: "0 \<le> k" unfolding k_def using assms(2) by simp
  have kt: "of_int k \<le> t + 1 / 2" unfolding k_def by (rule of_int_floor_le)
  have "(2::real) powi (999 + 1) = 2 * 2 powi 999" by (rule powi_Suc)
  moreover have "(1::real) \<le> 2 powi 999" by simp
  moreover have "(2::real) powi (999 + 1) = 2 powi 1000" by simp
  moreover have "\<bar>of_int k / 10 :: real\<bar> = of_int k / 10" using k0 by simp
  moreover have "(of_int k / 10 :: real) \<le> of_int k" using k0 by simp
  ultimately have "\<bar>of_int k / 10 :: real\<bar> \<le> 2 powi 1000"
    using kt assms(3) by linarith
  then have "round_to_double (of_int k / 10) = Finite (double_round (of_int k / 10))"
    by (rule round_to_double_small)
  then show ?thesis
    unfolding roundedDose_def assms(1) k_def by simp
qed

text \<open>
  Order: rounding keeps the order of values, and of values one apart it keeps the
  strict order; the doubles nearest to different tenths are different.
\<close>

lemma floor_half_mono: "a \<le> b \<Longrightarrow> \<lfloor>a + 1 / 2\<rfloor> \<le> \<lfloor>b + 1 / 2\<rfloor>" for a b :: real
  by (intro floor_mono) simp

lemma floor_half_strict: "a + 1 \<le> b \<Longrightarrow> \<lfloor>a + 1 / 2\<rfloor> < \<lfloor>b + 1 / 2\<rfloor>" for a b :: real
  by linarith


lemma tenth_normal:
  assumes "1 \<le> l" and "l \<le> 2 ^ 40"
  shows "2 powi (- 1022) \<le> (of_int l / 10 :: real)" and "(of_int l / 10 :: real) < 2 powi 1024"
proof -
  have l1: "(1::real) \<le> of_int l" using assms(1) by simp
  have "(of_int l :: real) \<le> of_int (2 ^ 40)" using assms(2) by (simp only: of_int_le_iff)
  then have l2: "(of_int l :: real) \<le> 2 powi 40" by simp
  have "(2::real) powi (- 1022) \<le> 2 powi (- 4)" by (rule powi_mono) simp
  moreover have "(2::real) powi (- 4) \<le> 1 / 10" by simp
  moreover have "(1::real) / 10 \<le> of_int l / 10" using l1 by simp
  ultimately show "2 powi (- 1022) \<le> (of_int l / 10 :: real)" by linarith
  have "(2::real) powi (40 + 1) = 2 * 2 powi 40" by (rule powi_Suc)
  moreover have "(2::real) powi (40 + 1) \<le> 2 powi 1024" by (rule powi_mono) simp
  moreover have "(of_int l / 10 :: real) \<le> of_int l" using l1 by simp
  moreover have "(0::real) < 2 powi 40" by simp
  ultimately show "(of_int l / 10 :: real) < 2 powi 1024" using l2 by linarith
qed

lemma double_round_tenths_strict:
  assumes "0 \<le> k" and "k < l" and "l \<le> 2 ^ 40"
  shows "double_round (of_int k / 10) < double_round (of_int l / 10)"
proof -
  define u :: real where "u = 1 / 2 ^ 53"
  have l1: "1 \<le> l" using assms by simp
  from double_round_bounds [OF tenth_normal [OF l1 assms(3)]]
  have lo: "of_int l / 10 * (1 - u) \<le> double_round (of_int l / 10)"
    by (simp add: u_def)
  have lpos: "(0::real) < of_int l / 10 * (1 - u)" using l1 by (simp add: u_def)
  show ?thesis
  proof (cases "k = 0")
    case True
    with lo lpos show ?thesis by simp
  next
    case False
    with assms(1) have k1: "1 \<le> k" by simp
    have k40: "k \<le> 2 ^ 40" using assms by simp
    from double_round_bounds [OF tenth_normal [OF k1 k40]]
    have hi: "double_round (of_int k / 10) \<le> of_int k / 10 * (1 + u)"
      by (simp add: u_def)
    have "(of_int k :: real) \<le> of_int (2 ^ 40)" using k40 by (simp only: of_int_le_iff)
    then have kr: "(of_int k :: real) \<le> 2 ^ 40" by simp
    have kl: "(of_int k :: real) + 1 \<le> of_int l" using assms(2) by linarith
    define c where "c = of_int k * u"
    have "of_int k * u \<le> 2 ^ 40 * u" using kr by (intro mult_right_mono) (simp_all add: u_def)
    also have "2 ^ 40 * u = 1 / 8192" by (simp add: u_def)
    finally have c: "c \<le> 1 / 8192" by (simp only: c_def)
    have "u \<le> 1 / 2" by (simp add: u_def)
    with c have "c + c + u < 1" by linarith
    then have a: "of_int k * u + of_int k * u + u < 1" by (simp only: c_def)
    have "(of_int k + 1) * (1 - u) \<le> of_int l * (1 - u)"
      using kl by (intro mult_right_mono) (simp_all add: u_def)
    moreover have "of_int k * (1 + u) < (of_int k + 1) * (1 - u)"
      using a by (simp add: algebra_simps)
    ultimately have "of_int k * (1 + u) < of_int l * (1 - u)" by linarith
    then have "of_int k / 10 * (1 + u) < of_int l / 10 * (1 - u)" by simp
    with lo hi show ?thesis by linarith
  qed
qed

lemma double_round_tenths_mono:
  assumes "0 \<le> k" and "k \<le> l" and "l \<le> 2 ^ 40"
  shows "double_round (of_int k / 10) \<le> double_round (of_int l / 10)"
proof (cases "k = l")
  case True
  then show ?thesis by simp
next
  case False
  with assms(2) have "k < l" by simp
  from double_round_tenths_strict [OF assms(1) this assms(3)] show ?thesis by simp
qed

text \<open>
  The rounded doses of a product \<open>R\<close>, its half and its double are in order, and in
  strict order when the half is at least one rounding step.
\<close>

lemma roundedDose_scaling:
  assumes pos: "0 < R"
    and m: "multiply (Finite R) (Finite 10) = Finite t"
      "multiply (Finite (2 * R)) (Finite 10) = Finite (2 * t)"
      "multiply (Finite (R / 2)) (Finite 10) = Finite (t / 2)"
    and t: "0 < t" "t \<le> 2 powi 30"
    and st: "1 / 5 \<le> R \<Longrightarrow> 2 \<le> t"
  shows "\<exists>d1 d2 d3. roundedDose s (Finite (R / 2)) = Finite d1 \<and>
           roundedDose s (Finite R) = Finite d2 \<and> roundedDose s (Finite (2 * R)) = Finite d3 \<and>
           d1 \<le> d2 \<and> d2 \<le> d3 \<and>
           ((if s = ''lsd'' then 1 / 10 else 1) \<le> R / 2 \<longrightarrow> d1 < d2 \<and> d2 < d3)"
proof (cases "s = ''lsd''")
  case False
  have "\<lfloor>R / 2 + 1 / 2\<rfloor> \<le> \<lfloor>R + 1 / 2\<rfloor>" using pos by (intro floor_half_mono) simp
  moreover have "\<lfloor>R + 1 / 2\<rfloor> \<le> \<lfloor>2 * R + 1 / 2\<rfloor>" using pos by (intro floor_half_mono) simp
  moreover have "1 \<le> R / 2 \<Longrightarrow> \<lfloor>R / 2 + 1 / 2\<rfloor> < \<lfloor>R + 1 / 2\<rfloor>"
    by (intro floor_half_strict) simp
  moreover have "1 \<le> R / 2 \<Longrightarrow> \<lfloor>R + 1 / 2\<rfloor> < \<lfloor>2 * R + 1 / 2\<rfloor>"
    by (intro floor_half_strict) simp
  ultimately show ?thesis
    using False by (simp add: roundedDose_mg)
next
  case True
  define k1 where "k1 = \<lfloor>t / 2 + 1 / 2\<rfloor>"
  define k2 where "k2 = \<lfloor>t + 1 / 2\<rfloor>"
  define k3 where "k3 = \<lfloor>2 * t + 1 / 2\<rfloor>"
  have p1: "(2::real) powi (30 + 1) = 2 * 2 powi 30" by (rule powi_Suc)
  have p2: "(2::real) powi (30 + 1) \<le> 2 powi 999" by (rule powi_mono) simp
  have p3: "(0::real) < 2 powi 30" by simp
  have b1: "t / 2 \<le> 2 powi 999" "t \<le> 2 powi 999" "2 * t \<le> 2 powi 999"
    using t p1 p2 p3 by linarith+
  have d1: "roundedDose ''lsd'' (Finite (R / 2)) = Finite (double_round (of_int k1 / 10))"
    unfolding k1_def using t(1) by (intro roundedDose_lsd [OF m(3) _ b1(1)]) simp
  have d2: "roundedDose ''lsd'' (Finite R) = Finite (double_round (of_int k2 / 10))"
    unfolding k2_def using t(1) by (intro roundedDose_lsd [OF m(1) _ b1(2)]) simp
  have d3: "roundedDose ''lsd'' (Finite (2 * R)) = Finite (double_round (of_int k3 / 10))"
    unfolding k3_def using t(1) by (intro roundedDose_lsd [OF m(2) _ b1(3)]) simp
  have k0: "0 \<le> k1" unfolding k1_def using t(1) by simp
  have k12: "k1 \<le> k2" unfolding k1_def k2_def using t(1) by (intro floor_half_mono) simp
  have k23: "k2 \<le> k3" unfolding k2_def k3_def using t(1) by (intro floor_half_mono) simp
  have "2 * t + 1 / 2 \<le> 2 powi 32"
    using t by simp
  then have "k3 \<le> \<lfloor>(2::real) powi 32\<rfloor>" unfolding k3_def by (rule floor_mono)
  then have k40: "k3 \<le> 2 ^ 40" by simp
  have k2_40: "k2 \<le> 2 ^ 40" using k23 k40 by linarith
  have k02: "0 \<le> k2" using k0 k12 by linarith
  have le12: "double_round (of_int k1 / 10) \<le> double_round (of_int k2 / 10)"
    using k0 k12 k2_40 by (rule double_round_tenths_mono)
  have le23: "double_round (of_int k2 / 10) \<le> double_round (of_int k3 / 10)"
    using k02 k23 k40 by (rule double_round_tenths_mono)
  have strict: "double_round (of_int k1 / 10) < double_round (of_int k2 / 10) \<and>
      double_round (of_int k2 / 10) < double_round (of_int k3 / 10)" if "1 / 10 \<le> R / 2"
  proof -
    from that have "1 / 5 \<le> R" by simp
    then have t2: "2 \<le> t" by (rule st)
    have "k1 < k2" unfolding k1_def k2_def using t2 by (intro floor_half_strict) simp
    moreover have "k2 < k3" unfolding k2_def k3_def using t2 by (intro floor_half_strict) simp
    ultimately show ?thesis
      using k0 k02 k2_40 k40 by (simp add: double_round_tenths_strict)
  qed
  show ?thesis
    using True d1 d2 d3 le12 le23 strict by simp
qed

text \<open>
  Evaluations used for the examples below.
\<close>

lemma round_half_up_200:
  "round_half_up 0 (200 - 200 / 2 ^ 50) = 200" "round_half_up 0 (200 + 200 / 2 ^ 50) = 200"
  by code_simp+

lemma p_ex_standard_eval:
  "calculate (p_ex\<lparr>goal := ''standard''\<rparr>) =
     Inr \<lparr>calculatedDose = Finite 200, doseUnit = mg, baseDose = 200,
          weightFactor = Finite 1, sensitivityFactor = 1, goalFactor = 1,
          intakeFormFactor = 1\<rparr>"
  by code_simp

lemma p_ex_unrounded_eval:
  "unroundedDose \<lparr>calculatedDose = Finite 200, doseUnit = mg, baseDose = 200,
          weightFactor = Finite 1, sensitivityFactor = 1, goalFactor = 1,
          intakeFormFactor = 1\<rparr> = Finite 200"
  by code_simp

section \<open>Claims about \<open>calculate\<close>\<close>

text \<open>
  Claim C1, as stated, fails: the product is computed in doubles, and its roundings can
  move it across a rounding boundary. For the valid input psilocybin as dried mushrooms,
  161 kg, sensitivity 0.75, goal \<^verbatim>\<open>sub_perceptual\<close>, the exact product is 172.5, which
  rounds half-up to 173; the code computes 172.49999999999997 and returns 172.
\<close>

theorem calculate_tie_counterexample:
  "isValid (validateParams
      (p_ex\<lparr>weight := 161, sensitivity := 3 / 4, goal := ''sub_perceptual''\<rparr>)) \<and>
   map_sum id calculatedDose
     (calculate (p_ex\<lparr>weight := 161, sensitivity := 3 / 4, goal := ''sub_perceptual''\<rparr>))
     = Inr (Finite 172) \<and>
   map_sum id
     (spec_calculatedDose (p_ex\<lparr>weight := 161, sensitivity := 3 / 4, goal := ''sub_perceptual''\<rparr>))
     (calculate (p_ex\<lparr>weight := 161, sensitivity := 3 / 4, goal := ''sub_perceptual''\<rparr>))
     = Inr 173"
  by code_simp

text \<open>
  Claim C1, amended. For every input with a substance in \<open>{psilocybin, lsd, amanita,
  ketamine}\<close>, a goal in \<open>{sub_perceptual, standard, upper_microdose}\<close>, an intake form
  that is not a name inherited from \<^verbatim>\<open>Object.prototype\<close>, a weight in \<open>[30, 200]\<close> and
  a sensitivity in \<open>[0.3, 2.0]\<close>, \<open>calculate\<close> returns a result; its \<open>baseDose\<close> and
  \<open>doseUnit\<close> are those of the row of the substance table, the unit is the microgram
  unit exactly for \<^verbatim>\<open>lsd\<close>, the weight factor is the double nearest to
  \<open>weight / 70\<close>, the goal factor and the intake-form factor are the table entries, and
  the \<open>calculatedDose\<close> is the substance's rounding of the product of the five factors
  as computed in doubles. It is a whole number \<open>k\<close> of rounding steps (\<open>k\<close> itself for
  the milligram unit, the double nearest to \<open>k / 10\<close> for the microgram unit), where
  \<open>k\<close> steps lie between the half-up roundings, at the unit's precision, of the exact
  product \<open>baseDose * (weight / 70) * sensitivity * goalFactor * intakeFormFactor\<close>
  lowered and raised by the factor \<open>2\<^sup>-\<^sup>5\<^sup>0\<close>. So the dose is the half-up rounding of
  the exact product unless that product lies within this relative distance of a rounding
  boundary.
\<close>

theorem calculate_formula_doubles:
  assumes sub: "substance p \<in> {''psilocybin'', ''lsd'', ''amanita'', ''ketamine''}"
    and goal: "goal p \<in> {''sub_perceptual'', ''standard'', ''upper_microdose''}"
    and form: "intakeForm p \<notin> set Object_prototype_keys"
    and w: "30 \<le> weight p" "weight p \<le> 200"
    and s: "double_round (3 / 10) \<le> sensitivity p" "sensitivity p \<le> 2"
  shows "\<exists>r sd k. calculate p = Inr r \<and>
           map_of SUBSTANCE_BASE_DOSES (substance p) = Some sd \<and>
           baseDose r = sd_baseDose sd \<and> doseUnit r = sd_unit sd \<and>
           (doseUnit r = microgram) = (substance p = ''lsd'') \<and>
           weightFactor r = Finite (double_round (weight p / 70)) \<and>
           sensitivityFactor r = sensitivity p \<and>
           map_of GOAL_FACTORS (goal p) = Some (goalFactor r) \<and>
           intakeFormFactor r = spec_intakeFormFactor (intakeForm p) \<and>
           calculatedDose r = roundedDose (substance p) (unroundedDose r) \<and>
           calculatedDose r = Finite (dose_of_steps (doseUnit r) k) \<and>
           round_half_up (spec_precision (doseUnit r)) (spec_product p r - spec_product p r / 2 ^ 50)
             \<le> of_int k / 10 ^ spec_precision (doseUnit r) \<and>
           of_int k / 10 ^ spec_precision (doseUnit r)
             \<le> round_half_up (spec_precision (doseUnit r))
                 (spec_product p r + spec_product p r / 2 ^ 50)"
proof -
  from SUBSTANCE_BASE_DOSES_valid [OF sub]
  obtain sd where sd: "map_of SUBSTANCE_BASE_DOSES (substance p) = Some sd" ..
  from GOAL_FACTORS_some [OF goal]
  obtain g where g: "map_of GOAL_FACTORS (goal p) = Some g" ..
  define f where "f = spec_intakeFormFactor (intakeForm p)"
  define bd where "bd = sd_baseDose sd"
  define x where "x = weight p / 70 * bd * sensitivity p * g * f"
  define R where "R = double_round (double_round (double_round (double_round
      (double_round (weight p / 70) * bd) * sensitivity p) * g) * f)"
  note bdr = SUBSTANCE_BASE_DOSES_range [OF sd, folded bd_def]
  note wr = valid_weight_range [OF w]
  note sr = valid_sensitivity_range [OF s]
  note gr = GOAL_FACTORS_range [OF g]
  note fr = spec_intakeFormFactor_range [of "intakeForm p", folded f_def]
  have W: "- 100 \<le> (- 2::int)" "(2::int) \<le> 100" by simp_all
  note ch = dose_chain [OF bdr [THEN conjunct1] bdr [THEN conjunct2]
      wr [THEN conjunct1] wr [THEN conjunct2] W
      sr [THEN conjunct1] sr [THEN conjunct2] gr [THEN conjunct1] gr [THEN conjunct2]
      fr [THEN conjunct1] fr [THEN conjunct2], folded R_def x_def]
  define r where "r = \<lparr>calculatedDose = roundedDose (substance p) (Finite R),
      doseUnit = sd_unit sd, baseDose = bd,
      weightFactor = Finite (double_round (weight p / 70)),
      sensitivityFactor = sensitivity p, goalFactor = g, intakeFormFactor = f\<rparr>"
  have calc: "calculate p = Inr r"
    unfolding calculate_returns [OF sd g form] r_def bd_def [symmetric] f_def [symmetric]
      ch(1) ch(3) ..
  have sp: "spec_product p r = x"
    by (simp add: spec_product_def r_def x_def mult_ac)
  have unit: "(sd_unit sd = microgram) = (substance p = ''lsd'')"
    using sd by (rule unit_microgram_iff_lsd)
  have "\<exists>k. calculatedDose r = Finite (dose_of_steps (doseUnit r) k) \<and>
          round_half_up (spec_precision (doseUnit r)) (x - x / 2 ^ 50)
             \<le> of_int k / 10 ^ spec_precision (doseUnit r) \<and>
          of_int k / 10 ^ spec_precision (doseUnit r)
             \<le> round_half_up (spec_precision (doseUnit r)) (x + x / 2 ^ 50)"
  proof (cases "substance p = ''lsd''")
    case True
    with unit have u: "sd_unit sd = microgram" by simp
    define t where "t = double_round (R * 10)"
    have wt: "within_roundings 6 t (x * 10 ^ 1)"
      using ch(11) by (simp add: t_def)
    from within_roundings_rough [OF wt] have t2: "x * 10 ^ 1 / 2 \<le> t" "t \<le> 2 * (x * 10 ^ 1)"
      by simp_all
    have xpos: "0 < x * 10 ^ 1" using wt by (simp add: within_roundings_def)
    have t0: "0 \<le> t" using t2(1) xpos by linarith
    have "(2::real) powi (2 + 18 + 1) = 2 * 2 powi (2 + 18)" by (rule powi_Suc)
    moreover have "(2::real) powi (2 + 18 + 1) \<le> 2 powi 999" by (rule powi_mono) simp
    ultimately have t999: "t \<le> 2 powi 999" using t2(2) ch(13) by simp
    have m: "multiply (Finite R) (Finite 10) = Finite t"
      unfolding t_def by (rule ch(8))
    have "calculatedDose r = Finite (dose_of_steps (doseUnit r) \<lfloor>t + 1 / 2\<rfloor>)"
      using roundedDose_lsd [OF m t0 t999] True u
      by (simp add: r_def dose_of_steps_def)
    moreover note Math_round_bracket [OF wt]
    ultimately show ?thesis
      using u by (intro exI [of _ "\<lfloor>t + 1 / 2\<rfloor>"]) (simp add: r_def spec_precision_def)
  next
    case False
    with unit have "sd_unit sd \<noteq> microgram" by simp
    then have u: "sd_unit sd = mg" by (cases "sd_unit sd") simp_all
    have wt: "within_roundings 5 R (x * 10 ^ 0)"
      using ch(7) by simp
    have "calculatedDose r = Finite (dose_of_steps (doseUnit r) \<lfloor>R + 1 / 2\<rfloor>)"
      using roundedDose_mg [OF False] u
      by (simp add: r_def dose_of_steps_def)
    moreover note Math_round_bracket [OF wt]
    ultimately show ?thesis
      using u by (intro exI [of _ "\<lfloor>R + 1 / 2\<rfloor>"]) (simp add: r_def spec_precision_def)
  qed
  then obtain k where k: "calculatedDose r = Finite (dose_of_steps (doseUnit r) k)"
    "round_half_up (spec_precision (doseUnit r)) (x - x / 2 ^ 50)
             \<le> of_int k / 10 ^ spec_precision (doseUnit r)"
    "of_int k / 10 ^ spec_precision (doseUnit r)
             \<le> round_half_up (spec_precision (doseUnit r)) (x + x / 2 ^ 50)"
    by blast
  have fields: "baseDose r = sd_baseDose sd" "doseUnit r = sd_unit sd"
    "weightFactor r = Finite (double_round (weight p / 70))"
    "sensitivityFactor r = sensitivity p" "goalFactor r = g"
    "intakeFormFactor r = spec_intakeFormFactor (intakeForm p)"
    by (simp_all add: r_def bd_def f_def)
  have unit': "(doseUnit r = microgram) = (substance p = ''lsd'')"
    using unit by (simp only: fields)
  have g': "map_of GOAL_FACTORS (goal p) = Some (goalFactor r)"
    using g by (simp only: fields)
  have "unroundedDose r = Finite R"
    by (simp add: unroundedDose_def r_def ch(3))
  then have rd: "calculatedDose r = roundedDose (substance p) (unroundedDose r)"
    by (simp add: r_def)
  from calc sd fields(1-4,6) unit' g' rd k [folded sp] show ?thesis
    by blast
qed

theorem calculate_formula_doubles_witness:
  "\<exists>r. calculate p_ex = Inr r \<and> baseDose r = 200 \<and> doseUnit r = mg \<and>
       weightFactor r = Finite 1 \<and> calculatedDose r = Finite 200"
proof -
  have h1: "substance p_ex \<in> {''psilocybin'', ''lsd'', ''amanita'', ''ketamine''}"
    by (simp add: p_ex_def)
  have h2: "goal p_ex \<in> {''sub_perceptual'', ''standard'', ''upper_microdose''}"
    by (simp add: p_ex_def)
  have h3: "intakeForm p_ex \<notin> set Object_prototype_keys"
    by (simp add: p_ex_def Object_prototype_keys_def)
  have h4: "30 \<le> weight p_ex" "weight p_ex \<le> 200"
    by (simp_all add: p_ex_def)
  have h5: "double_round (3 / 10) \<le> sensitivity p_ex" "sensitivity p_ex \<le> 2"
    by (simp_all add: p_ex_def double_round_three_tenths)
  from calculate_formula_doubles [OF h1 h2 h3 h4 h5]
  obtain r sd k where calc: "calculate p_ex = Inr r"
    and sd: "map_of SUBSTANCE_BASE_DOSES (substance p_ex) = Some sd"
    and bd: "baseDose r = sd_baseDose sd" and un: "doseUnit r = sd_unit sd"
    and wf: "weightFactor r = Finite (double_round (weight p_ex / 70))"
    and sf: "sensitivityFactor r = sensitivity p_ex"
    and gf: "map_of GOAL_FACTORS (goal p_ex) = Some (goalFactor r)"
    and ff: "intakeFormFactor r = spec_intakeFormFactor (intakeForm p_ex)"
    and cd: "calculatedDose r = Finite (dose_of_steps (doseUnit r) k)"
    and lo: "round_half_up (spec_precision (doseUnit r))
               (spec_product p_ex r - spec_product p_ex r / 2 ^ 50)
             \<le> of_int k / 10 ^ spec_precision (doseUnit r)"
    and hi: "of_int k / 10 ^ spec_precision (doseUnit r)
             \<le> round_half_up (spec_precision (doseUnit r))
                 (spec_product p_ex r + spec_product p_ex r / 2 ^ 50)"
    by blast
  from sd have sd': "sd = \<lparr>sd_baseDose = 200, sd_unit = mg,
      sd_description = ''Dried Psilocybin mushrooms''\<rparr>"
    by (simp add: SUBSTANCE_BASE_DOSES_def p_ex_def)
  have bd': "baseDose r = 200" and un': "doseUnit r = mg"
    using bd un by (simp_all add: sd')
  from gf have gf': "goalFactor r = 1" by (simp add: GOAL_FACTORS_def p_ex_def)
  from ff have ff': "intakeFormFactor r = 1"
    by (simp add: spec_intakeFormFactor_def INTAKE_FORM_FACTORS_def p_ex_def)
  from sf have sf': "sensitivityFactor r = 1" by (simp add: p_ex_def)
  have x: "spec_product p_ex r = 200"
    by (simp add: spec_product_def bd' gf' ff' sf' p_ex_def)
  have one: "double_round 1 = 1" by code_simp
  from wf have wf': "weightFactor r = Finite 1" by (simp add: p_ex_def one)
  from lo hi have "(200::real) \<le> of_int k" "(of_int k :: real) \<le> 200"
    unfolding x un' by (simp_all only: spec_precision_def dose_unit.case round_half_up_200
        power_0 div_by_1)
  then have "k = 200" by linarith
  with cd have "calculatedDose r = Finite 200"
    by (simp add: un' dose_of_steps_def)
  with calc bd' un' wf' show ?thesis by blast
qed

text \<open>
  Claim C4, as stated, fails: the lookup does not depend on the substance. For
  \<^verbatim>\<open>lsd\<close> with the intake form \<^verbatim>\<open>fresh_mushrooms\<close>, which the table lists under
  psilocybin only, the factor is 10 and not 1.
\<close>

theorem intakeForm_other_substance_counterexample:
  "\<not> recognized_for ''lsd'' ''fresh_mushrooms'' \<and>
   map_sum id intakeFormFactor
     (calculate (p_ex\<lparr>substance := ''lsd'', intakeForm := ''fresh_mushrooms''\<rparr>)) = Inr 10"
  by (simp add: recognized_for_def SUBSTANCE_INTAKE_FORMS_def p_ex_def calculate_def
      get_property_def GOAL_FACTORS_def INTAKE_FORM_FACTORS_def SUBSTANCE_BASE_DOSES_def
      or_default_def generateExplanation_def Let_def)

text \<open>
  Claim C4, amended. The intake-form factor is looked up by the intake form alone,
  whatever the substance: it is the table entry for a form that is a key of the table, and
  1 for every other form that is not a name inherited from \<^verbatim>\<open>Object.prototype\<close>; no
  error is raised in either case.
\<close>

theorem intakeFormFactor_lookup:
  assumes "map_of SUBSTANCE_BASE_DOSES (substance p) = Some sd"
    and "map_of GOAL_FACTORS (goal p) = Some g"
    and "intakeForm p \<notin> set Object_prototype_keys"
  shows "\<exists>r. calculate p = Inr r \<and>
           intakeFormFactor r =
             (case map_of INTAKE_FORM_FACTORS (intakeForm p) of Some f \<Rightarrow> f | None \<Rightarrow> 1)"
  unfolding calculate_returns [OF assms] by (simp add: spec_intakeFormFactor_def)

theorem intakeFormFactor_lookup_witness:
  "\<exists>r. calculate (p_ex\<lparr>intakeForm := ''foo''\<rparr>) = Inr r \<and> intakeFormFactor r = 1"
proof -
  let ?p = "p_ex\<lparr>intakeForm := ''foo''\<rparr>"
  have 1: "map_of SUBSTANCE_BASE_DOSES (substance ?p) =
             Some \<lparr>sd_baseDose = 200, sd_unit = mg,
                    sd_description = ''Dried Psilocybin mushrooms''\<rparr>"
    by (simp add: SUBSTANCE_BASE_DOSES_def p_ex_def)
  have 2: "map_of GOAL_FACTORS (goal ?p) = Some 1"
    by (simp add: GOAL_FACTORS_def p_ex_def)
  have 3: "intakeForm ?p \<notin> set Object_prototype_keys"
    by (simp add: Object_prototype_keys_def)
  have 4: "map_of INTAKE_FORM_FACTORS (intakeForm ?p) = None"
    by (simp add: INTAKE_FORM_FACTORS_def)
  from intakeFormFactor_lookup [OF 1 2 3] show ?thesis
    unfolding 4 by simp
qed

text \<open>
  Claim C6, as stated, fails: rounding can make neighbouring goals equal. For valid
  parameters (psilocybin as pure extract, 40 kg, sensitivity 1) the goals
  \<^verbatim>\<open>sub_perceptual\<close> and \<^verbatim>\<open>standard\<close> both give 1 mg.
\<close>

theorem goal_not_strict_counterexample:
  "isValid (validateParams (p_ex\<lparr>weight := 40, intakeForm := ''pure_extract''\<rparr>)) \<and>
   map_sum id calculatedDose
     (calculate (p_ex\<lparr>weight := 40, intakeForm := ''pure_extract'',
                      goal := ''sub_perceptual''\<rparr>)) = Inr (Finite 1) \<and>
   map_sum id calculatedDose
     (calculate (p_ex\<lparr>weight := 40, intakeForm := ''pure_extract'',
                      goal := ''standard''\<rparr>)) = Inr (Finite 1)"
  by code_simp

text \<open>
  Claim C6, amended. For a fixed substance in \<open>{psilocybin, lsd, amanita, ketamine}\<close>, a
  fixed intake form that is not a name inherited from \<^verbatim>\<open>Object.prototype\<close>, a fixed
  weight in \<open>[30, 200]\<close> and a fixed sensitivity in \<open>[0.3, 2.0]\<close>, \<open>calculate\<close> returns
  a result for each of the three goals; the goal factor is strictly increasing from
  \<^verbatim>\<open>sub_perceptual\<close> to \<^verbatim>\<open>standard\<close> to \<^verbatim>\<open>upper_microdose\<close>; the unrounded product
  for \<^verbatim>\<open>sub_perceptual\<close> is exactly half, and the one for \<^verbatim>\<open>upper_microdose\<close> exactly
  twice, the positive unrounded product \<open>R\<close> for \<^verbatim>\<open>standard\<close>; each calculated dose
  is the substance's rounding of its unrounded product; the calculated dose is
  non-decreasing in the goal, and it is strictly increasing whenever the unrounded
  \<^verbatim>\<open>sub_perceptual\<close> product \<open>R / 2\<close> is at least one rounding step of the unit (1 mg,
  or 0.1 of the microgram unit).
\<close>

theorem goal_ordering:
  assumes sub: "substance p \<in> {''psilocybin'', ''lsd'', ''amanita'', ''ketamine''}"
    and form: "intakeForm p \<notin> set Object_prototype_keys"
    and w: "30 \<le> weight p" "weight p \<le> 200"
    and s: "double_round (3 / 10) \<le> sensitivity p" "sensitivity p \<le> 2"
  shows "\<exists>r1 r2 r3 R d1 d2 d3.
           calculate (p\<lparr>goal := ''sub_perceptual''\<rparr>) = Inr r1 \<and>
           calculate (p\<lparr>goal := ''standard''\<rparr>) = Inr r2 \<and>
           calculate (p\<lparr>goal := ''upper_microdose''\<rparr>) = Inr r3 \<and>
           goalFactor r1 < goalFactor r2 \<and> goalFactor r2 < goalFactor r3 \<and>
           unroundedDose r1 = Finite (R / 2) \<and> unroundedDose r2 = Finite R \<and>
           unroundedDose r3 = Finite (2 * R) \<and> 0 < R \<and>
           calculatedDose r1 = roundedDose (substance p) (unroundedDose r1) \<and>
           calculatedDose r2 = roundedDose (substance p) (unroundedDose r2) \<and>
           calculatedDose r3 = roundedDose (substance p) (unroundedDose r3) \<and>
           calculatedDose r1 = Finite d1 \<and> calculatedDose r2 = Finite d2 \<and>
           calculatedDose r3 = Finite d3 \<and> d1 \<le> d2 \<and> d2 \<le> d3 \<and>
           (rounding_step (doseUnit r2) \<le> R / 2 \<longrightarrow> d1 < d2 \<and> d2 < d3)"
proof -
  from SUBSTANCE_BASE_DOSES_valid [OF sub]
  obtain sd where sd: "map_of SUBSTANCE_BASE_DOSES (substance p) = Some sd" ..
  define f where "f = spec_intakeFormFactor (intakeForm p)"
  define bd where "bd = sd_baseDose sd"
  define x where "x = weight p / 70 * bd * sensitivity p * 1 * f"
  define R where "R = double_round (double_round (double_round (double_round
      (double_round (weight p / 70) * bd) * sensitivity p) * 1) * f)"
  define t where "t = double_round (R * 10)"
  note bdr = SUBSTANCE_BASE_DOSES_range [OF sd, folded bd_def]
  note wr = valid_weight_range [OF w]
  note sr = valid_sensitivity_range [OF s]
  have gr: "2 powi (- 1) \<le> (1::real)" "(1::real) \<le> 2 powi 1" by simp_all
  note fr = spec_intakeFormFactor_range [of "intakeForm p", folded f_def]
  have W: "- 100 \<le> (- 2::int)" "(2::int) \<le> 100" by simp_all
  note ch = dose_chain [OF bdr [THEN conjunct1] bdr [THEN conjunct2]
      wr [THEN conjunct1] wr [THEN conjunct2] W
      sr [THEN conjunct1] sr [THEN conjunct2] gr
      fr [THEN conjunct1] fr [THEN conjunct2], folded R_def x_def t_def]
  have ch6: "dose_product bd (Finite (double_round (weight p / 70))) (sensitivity p) 2 f
               = Finite (2 * R)"
    using ch(6) by simp
  define p1 where "p1 = p\<lparr>goal := ''sub_perceptual''\<rparr>"
  define p2 where "p2 = p\<lparr>goal := ''standard''\<rparr>"
  define p3 where "p3 = p\<lparr>goal := ''upper_microdose''\<rparr>"
  have sel: "substance p1 = substance p" "weight p1 = weight p"
    "sensitivity p1 = sensitivity p" "intakeForm p1 = intakeForm p"
    "substance p2 = substance p" "weight p2 = weight p"
    "sensitivity p2 = sensitivity p" "intakeForm p2 = intakeForm p"
    "substance p3 = substance p" "weight p3 = weight p"
    "sensitivity p3 = sensitivity p" "intakeForm p3 = intakeForm p"
    by (simp_all add: p1_def p2_def p3_def)
  have g1: "map_of GOAL_FACTORS (goal p1) = Some (1 / 2)"
    and g2: "map_of GOAL_FACTORS (goal p2) = Some 1"
    and g3: "map_of GOAL_FACTORS (goal p3) = Some 2"
    by (simp_all add: p1_def p2_def p3_def GOAL_FACTORS_def)
  define r1 where "r1 = \<lparr>calculatedDose = roundedDose (substance p) (Finite (R / 2)),
      doseUnit = sd_unit sd, baseDose = bd,
      weightFactor = Finite (double_round (weight p / 70)),
      sensitivityFactor = sensitivity p, goalFactor = 1 / 2, intakeFormFactor = f\<rparr>"
  define r2 where "r2 = \<lparr>calculatedDose = roundedDose (substance p) (Finite R),
      doseUnit = sd_unit sd, baseDose = bd,
      weightFactor = Finite (double_round (weight p / 70)),
      sensitivityFactor = sensitivity p, goalFactor = 1, intakeFormFactor = f\<rparr>"
  define r3 where "r3 = \<lparr>calculatedDose = roundedDose (substance p) (Finite (2 * R)),
      doseUnit = sd_unit sd, baseDose = bd,
      weightFactor = Finite (double_round (weight p / 70)),
      sensitivityFactor = sensitivity p, goalFactor = 2, intakeFormFactor = f\<rparr>"
  have c1: "calculate p1 = Inr r1"
    unfolding calculate_returns [OF sd [folded sel(1)] g1 form [folded sel(4)]] sel r1_def
      bd_def [symmetric] f_def [symmetric] ch(1) ch(5) ..
  have c2: "calculate p2 = Inr r2"
    unfolding calculate_returns [OF sd [folded sel(5)] g2 form [folded sel(8)]] sel r2_def
      bd_def [symmetric] f_def [symmetric] ch(1) ch(3) ..
  have c3: "calculate p3 = Inr r3"
    unfolding calculate_returns [OF sd [folded sel(9)] g3 form [folded sel(12)]] sel r3_def
      bd_def [symmetric] f_def [symmetric] ch(1) ch6 ..
  have gf: "goalFactor r1 < goalFactor r2" "goalFactor r2 < goalFactor r3"
    by (simp_all add: r1_def r2_def r3_def)
  have u1: "unroundedDose r1 = Finite (R / 2)"
    by (simp add: unroundedDose_def r1_def ch(5))
  have u2: "unroundedDose r2 = Finite R"
    by (simp add: unroundedDose_def r2_def ch(3))
  have u3: "unroundedDose r3 = Finite (2 * R)"
    by (simp add: unroundedDose_def r3_def ch6)
  from within_roundings_rough [OF ch(7)] have Rx: "x / 2 \<le> R" "R \<le> 2 * x" by simp_all
  have xpos: "0 < x" using ch(7) by (simp add: within_roundings_def)
  have Rpos: "0 < R" using Rx(1) xpos by linarith
  from within_roundings_rough [OF ch(11)] have tx: "x * 10 / 2 \<le> t" "t \<le> 2 * (x * 10)"
    by simp_all
  have tpos: "0 < t" using tx(1) xpos by linarith
  have q1: "(2::real) powi (2 + 18 + 1) = 2 * 2 powi (2 + 18)" by (rule powi_Suc)
  have q2: "(2::real) powi (2 + 18 + 1) \<le> 2 powi 30" by (rule powi_mono) simp
  have q3: "(2::real) powi 30 \<le> 2 powi 1000" by (rule powi_mono) simp
  have q4: "(2::real) powi (1000 + 1) = 2 * 2 powi 1000" by (rule powi_Suc)
  have q5: "(2::real) powi (1000 + 1) \<le> 2 powi 1024" by (rule powi_mono) simp
  have q6: "(0::real) < 2 powi 1000" by simp
  have t30: "t \<le> 2 powi 30" using tx(2) ch(13) q1 q2 by linarith
  have R10: "R * 10 < 2 powi 1024" using Rx(2) ch(13) q1 q2 q3 q4 q5 q6 by linarith
  have st: "2 \<le> t" if "1 / 5 \<le> R"
    unfolding t_def using that R10 by (intro double_round_ge_two) simp_all
  from roundedDose_scaling [OF Rpos ch(8) ch(9) ch(10) tpos t30 st, of "substance p"]
  obtain d1 d2 d3 where d: "roundedDose (substance p) (Finite (R / 2)) = Finite d1"
    "roundedDose (substance p) (Finite R) = Finite d2"
    "roundedDose (substance p) (Finite (2 * R)) = Finite d3" "d1 \<le> d2" "d2 \<le> d3"
    "(if substance p = ''lsd'' then 1 / 10 else 1) \<le> R / 2 \<longrightarrow> d1 < d2 \<and> d2 < d3"
    by blast
  have cd: "calculatedDose r1 = Finite d1" "calculatedDose r2 = Finite d2"
    "calculatedDose r3 = Finite d3"
    by (simp_all add: r1_def r2_def r3_def d)
  have unit: "(sd_unit sd = microgram) = (substance p = ''lsd'')"
    using sd by (rule unit_microgram_iff_lsd)
  have "rounding_step (doseUnit r2) = (if substance p = ''lsd'' then 1 / 10 else 1)"
    using unit by (cases "sd_unit sd") (simp_all add: r2_def rounding_step_def spec_precision_def)
  with d(6) have strict: "rounding_step (doseUnit r2) \<le> R / 2 \<longrightarrow> d1 < d2 \<and> d2 < d3"
    by (simp only:)
  have rd: "calculatedDose r1 = roundedDose (substance p) (unroundedDose r1)"
    "calculatedDose r2 = roundedDose (substance p) (unroundedDose r2)"
    "calculatedDose r3 = roundedDose (substance p) (unroundedDose r3)"
    unfolding u1 u2 u3 by (simp_all add: r1_def r2_def r3_def)
  from c1 c2 c3 gf u1 u2 u3 Rpos rd cd d(4,5) strict show ?thesis
    unfolding p1_def p2_def p3_def by blast
qed

theorem goal_ordering_witness:
  "\<exists>r1 r2 r3 d1 d2 d3.
     calculate (p_ex\<lparr>goal := ''sub_perceptual''\<rparr>) = Inr r1 \<and>
     calculate (p_ex\<lparr>goal := ''standard''\<rparr>) = Inr r2 \<and>
     calculate (p_ex\<lparr>goal := ''upper_microdose''\<rparr>) = Inr r3 \<and>
     unroundedDose r1 = Finite 100 \<and> unroundedDose r2 = Finite 200 \<and>
     unroundedDose r3 = Finite 400 \<and>
     calculatedDose r1 = Finite d1 \<and> calculatedDose r2 = Finite d2 \<and>
     calculatedDose r3 = Finite d3 \<and> d1 < d2 \<and> d2 < d3"
proof -
  have h1: "substance p_ex \<in> {''psilocybin'', ''lsd'', ''amanita'', ''ketamine''}"
    by (simp add: p_ex_def)
  have h3: "intakeForm p_ex \<notin> set Object_prototype_keys"
    by (simp add: p_ex_def Object_prototype_keys_def)
  have h4: "30 \<le> weight p_ex" "weight p_ex \<le> 200"
    by (simp_all add: p_ex_def)
  have h5: "double_round (3 / 10) \<le> sensitivity p_ex" "sensitivity p_ex \<le> 2"
    by (simp_all add: p_ex_def double_round_three_tenths)
  from goal_ordering [OF h1 h3 h4 h5]
  obtain r1 r2 r3 R d1 d2 d3 where
    c: "calculate (p_ex\<lparr>goal := ''sub_perceptual''\<rparr>) = Inr r1"
      "calculate (p_ex\<lparr>goal := ''standard''\<rparr>) = Inr r2"
      "calculate (p_ex\<lparr>goal := ''upper_microdose''\<rparr>) = Inr r3"
    and u: "unroundedDose r1 = Finite (R / 2)" "unroundedDose r2 = Finite R"
      "unroundedDose r3 = Finite (2 * R)"
    and cd: "calculatedDose r1 = Finite d1" "calculatedDose r2 = Finite d2"
      "calculatedDose r3 = Finite d3"
    and strict: "rounding_step (doseUnit r2) \<le> R / 2 \<longrightarrow> d1 < d2 \<and> d2 < d3"
    by blast
  from c(2) have r2: "r2 = \<lparr>calculatedDose = Finite 200, doseUnit = mg, baseDose = 200,
          weightFactor = Finite 1, sensitivityFactor = 1, goalFactor = 1,
          intakeFormFactor = 1\<rparr>"
    by (simp only: p_ex_standard_eval sum.inject)
  from u(2) have R: "R = 200" by (simp only: r2 p_ex_unrounded_eval number.inject)
  have "rounding_step (doseUnit r2) \<le> R / 2"
    by (simp add: r2 R rounding_step_def spec_precision_def)
  with strict have "d1 < d2 \<and> d2 < d3" by blast
  with c u cd show ?thesis unfolding R by simp
qed




section \<open>Claims about \<open>validateParams\<close>\<close>

lemma push_if: "(if c then xs @ [m] else xs) = xs @ map snd (filter fst [(c, m)])"
  by simp

text \<open>The six pushes, read as a table: the messages of the violated checks, in order.\<close>

lemma validateParams_errors:
  "errors (validateParams p) = map snd (filter fst (field_violations p))"
proof -
  have c1: "(gender p = [] \<or> gender p \<notin> set [''male'', ''female'', ''other''])
              = (gender p \<notin> {''male'', ''female'', ''other''})"
    by auto
  have c2: "(weight p = 0 \<or> weight p < 30 \<or> weight p > 200)
              = (\<not> (30 \<le> weight p \<and> weight p \<le> 200))"
    by auto
  have c3: "(substance p = [] \<or>
             substance p \<notin> set [''psilocybin'', ''lsd'', ''amanita'', ''ketamine''])
              = (substance p \<notin> {''psilocybin'', ''lsd'', ''amanita'', ''ketamine''})"
    by auto
  have c5: "(sensitivity p = 0 \<or> sensitivity p < double_round (3 / 10) \<or> sensitivity p > 2)
              = (\<not> (double_round (3 / 10) \<le> sensitivity p \<and> sensitivity p \<le> 2))"
    by (auto simp: double_round_three_tenths)
  have c6: "(goal p = [] \<or>
             goal p \<notin> set [''sub_perceptual'', ''standard'', ''upper_microdose''])
              = (goal p \<notin> {''sub_perceptual'', ''standard'', ''upper_microdose''})"
    by auto
  show ?thesis
    unfolding validateParams_def Let_def c1 c2 c3 c5 c6 push_if field_violations_def
    by (simp only: validation.simps append_Nil filter_append [symmetric] map_append [symmetric]
        append_Cons)
qed

lemma validateParams_flag: "isValid (validateParams p) = (errors (validateParams p) = [])"
  by (simp add: validateParams_def Let_def)

text \<open>
  Claim C5, as stated, fails: the intake form is not checked against any enumeration. With
  every other field valid, the intake form \<^verbatim>\<open>foo\<close>, which is in no table, is accepted
  without an error.
\<close>

theorem validateParams_intakeForm_counterexample:
  "map_of INTAKE_FORM_FACTORS ''foo'' = None \<and>
   validateParams (p_ex\<lparr>intakeForm := ''foo''\<rparr>) = \<lparr>isValid = True, errors = []\<rparr>"
  by (simp add: validateParams_def p_ex_def INTAKE_FORM_FACTORS_def Let_def
      double_round_three_tenths)

text \<open>
  Claim C5, amended. \<open>validateParams\<close> checks gender, substance and goal for membership
  in their enumerations, the weight for the range 30 to 200, the sensitivity for the range
  0.3 to 2.0, and the intake form only for being non-empty. The checks are independent:
  the error list is exactly the messages of the violated checks, in field order, so every
  violation is reported and nothing else is. In particular, with the weight 250 and every
  other field valid, the result is invalid and its only error is the weight-range message.
\<close>

theorem validateParams_reports:
  "errors (validateParams p) = map snd (filter fst (field_violations p)) \<and>
   (weight p = 250 \<and> gender p \<in> {''male'', ''female'', ''other''} \<and>
    substance p \<in> {''psilocybin'', ''lsd'', ''amanita'', ''ketamine''} \<and>
    intakeForm p \<noteq> [] \<and> double_round (3 / 10) \<le> sensitivity p \<and> sensitivity p \<le> 2 \<and>
    goal p \<in> {''sub_perceptual'', ''standard'', ''upper_microdose''} \<longrightarrow>
    validateParams p =
      \<lparr>isValid = False, errors = [''Gewicht muss zwischen 30 und 200 kg liegen'']\<rparr>)"
proof (intro conjI impI)
  show e: "errors (validateParams p) = map snd (filter fst (field_violations p))"
    by (rule validateParams_errors)
  assume a: "weight p = 250 \<and> gender p \<in> {''male'', ''female'', ''other''} \<and>
    substance p \<in> {''psilocybin'', ''lsd'', ''amanita'', ''ketamine''} \<and>
    intakeForm p \<noteq> [] \<and> double_round (3 / 10) \<le> sensitivity p \<and> sensitivity p \<le> 2 \<and>
    goal p \<in> {''sub_perceptual'', ''standard'', ''upper_microdose''}"
  then have "map snd (filter fst (field_violations p))
               = [''Gewicht muss zwischen 30 und 200 kg liegen'']"
    unfolding field_violations_def by simp
  with e have "errors (validateParams p) = [''Gewicht muss zwischen 30 und 200 kg liegen'']"
    by simp
  moreover from this have "isValid (validateParams p) = False"
    by (simp add: validateParams_flag)
  ultimately show "validateParams p =
      \<lparr>isValid = False, errors = [''Gewicht muss zwischen 30 und 200 kg liegen'']\<rparr>"
    by (cases "validateParams p") simp
qed

theorem validateParams_reports_witness:
  "validateParams (p_ex\<lparr>weight := 250\<rparr>) =
      \<lparr>isValid = False, errors = [''Gewicht muss zwischen 30 und 200 kg liegen'']\<rparr>"
  using validateParams_reports [of "p_ex\<lparr>weight := 250\<rparr>"]
  by (simp add: p_ex_def double_round_three_tenths)

text \<open>
  Claim C9. For every input, the validity flag that \<open>validateParams\<close> returns is true
  if and only if the error list it returns is empty.
\<close>

theorem validateParams_isValid_iff:
  "isValid (validateParams p) = (errors (validateParams p) = [])"
  by (simp add: validateParams_def Let_def)

theorem validateParams_isValid_iff_witness:
  "isValid (validateParams p_ex) \<and> errors (validateParams p_ex) = [] \<and>
   \<not> isValid (validateParams (p_ex\<lparr>goal := ''high''\<rparr>)) \<and>
   errors (validateParams (p_ex\<lparr>goal := ''high''\<rparr>)) = [''Ziel ist erforderlich'']"
proof -
  have 1: "errors (validateParams p_ex) = []"
    by (simp add: validateParams_def p_ex_def Let_def double_round_three_tenths)
  have 2: "errors (validateParams (p_ex\<lparr>goal := ''high''\<rparr>)) = [''Ziel ist erforderlich'']"
    by (simp add: validateParams_def p_ex_def Let_def double_round_three_tenths)
  from validateParams_isValid_iff [of p_ex] 1 have "isValid (validateParams p_ex)"
    by simp
  moreover from validateParams_isValid_iff [of "p_ex\<lparr>goal := ''high''\<rparr>"] 2
  have "\<not> isValid (validateParams (p_ex\<lparr>goal := ''high''\<rparr>))"
    by simp
  ultimately show ?thesis using 1 2 by simp
qed

section \<open>The event generator on a host with a constant UTC offset\<close>

lemma msPerDay_pos: "0 < msPerDay"
  by (simp add: msPerDay_def)

lemma smod_nonneg: "0 \<le> a \<Longrightarrow> (a::int) smod b = a mod \<bar>b\<bar>"
  by (cases "a = 0") (simp_all add: smod_int_alt_def)

text \<open>With a constant offset, the next local day is exactly 24 hours later.\<close>

lemma setDate_fixed_zone: "setDate_getDate_plus_1 (fixed_zone c) d = d + msPerDay"
  by (simp add: setDate_getDate_plus_1_def fixed_zone_def LocalTime_def UTC_def MakeDate_def
      Day_def TimeWithinDay_def Let_def distrib_right)

text \<open>
  The loop then returns, after one iteration for each multiple of 24 hours from the
  current date up to the end date.
\<close>

lemma generate_loop_fixed_zone:
  "nat ((endDate p - cur) div msPerDay + 1) = n \<Longrightarrow>
   generate_loop (fixed_zone c) p prof cur acc =
     Some (acc @ map (\<lambda>i. create_event (fixed_zone c) p prof (cur + int i * msPerDay)) [0..<n])"
proof (induction n arbitrary: cur acc)
  case 0
  then have "(endDate p - cur) div msPerDay < 0" by simp
  then have "endDate p - cur < 0"
    using msPerDay_pos pos_imp_zdiv_nonneg_iff [of msPerDay "endDate p - cur"] by linarith
  then show ?case
    by (subst generate_loop.simps) simp
next
  case (Suc n)
  then have "0 \<le> (endDate p - cur) div msPerDay" by linarith
  then have le: "cur \<le> endDate p"
    using msPerDay_pos pos_imp_zdiv_nonneg_iff [of msPerDay "endDate p - cur"] by linarith
  have "(endDate p - cur) div msPerDay = ((endDate p - (cur + msPerDay)) + msPerDay) div msPerDay"
    by simp
  also have "\<dots> = (endDate p - (cur + msPerDay)) div msPerDay + 1"
    using msPerDay_pos by (intro div_add_self2) simp
  finally have "(endDate p - (cur + msPerDay)) div msPerDay = (endDate p - cur) div msPerDay - 1"
    by simp
  with Suc.prems have n: "nat ((endDate p - (cur + msPerDay)) div msPerDay + 1) = n"
    by simp
  have shift: "map (\<lambda>i. create_event (fixed_zone c) p prof (cur + int i * msPerDay)) [0..<Suc n]
      = create_event (fixed_zone c) p prof cur #
        map (\<lambda>i. create_event (fixed_zone c) p prof (cur + msPerDay + int i * msPerDay)) [0..<n]"
    by (simp only: map_upt_Suc) (simp add: algebra_simps)
  show ?case
    by (subst generate_loop.simps)
      (simp only: le if_True setDate_fixed_zone Suc.IH [OF n] shift append_assoc append_Cons
        append_Nil)
qed

lemma create_protocol_startDate:
  "startDate (create_protocol ty s k st) = Day s * msPerDay"
  by (simp add: create_protocol_def setUTCHours_def MakeDate_def MakeTime_def Let_def)

lemma create_protocol_endDate:
  "endDate (create_protocol ty s k st) =
     startDate (create_protocol ty s k st) + 7 * k * msPerDay + (msPerDay - 1)"
  using msPerDay_pos
  by (simp add: create_protocol_def setUTCHours_def setUTCDate_getUTCDate_plus_def MakeDate_def
      MakeTime_def Day_def TimeWithinDay_def Let_def msPerDay_def algebra_simps)

text \<open>
  On such a host the generator returns one event for each of the \<open>7 * k + 1\<close> days
  from the start date on.
\<close>

lemma generate_fixed_zone:
  assumes "0 \<le> k"
  shows "generateProtocolEvents (fixed_zone c) (create_protocol ty s k st) prof =
     Some (map (\<lambda>i. create_event (fixed_zone c) (create_protocol ty s k st) prof
                       (startDate (create_protocol ty s k st) + int i * msPerDay))
             [0..<nat (7 * k + 1)])"
proof -
  let ?p = "create_protocol ty s k st"
  have "endDate ?p - startDate ?p = 7 * k * msPerDay + (msPerDay - 1)"
    by (simp add: create_protocol_endDate)
  moreover have "(7 * k * msPerDay + (msPerDay - 1)) div msPerDay = 7 * k"
    using msPerDay_pos by (simp add: msPerDay_def)
  ultimately have "nat ((endDate ?p - startDate ?p) div msPerDay + 1) = nat (7 * k + 1)"
    by simp
  then show ?thesis
    unfolding generateProtocolEvents_def
    by (simp only: generate_loop_fixed_zone append_Nil)
qed

lemma ev_date_create_event: "ev_date (create_event tz p prof d) = Day d * msPerDay"
  by (simp add: create_event_def setUTCHours_def MakeDate_def MakeTime_def Let_def)

lemma Day_start_plus:
  "Day (startDate (create_protocol ty s k st) + i * msPerDay) = Day s + i"
  using msPerDay_pos by (simp add: create_protocol_startDate Day_def)

text \<open>Their dates are the consecutive UTC days, ascending, without gap or repetition.\<close>

lemma generate_fixed_zone_dates:
  assumes "0 \<le> k"
  shows "map_option (map ev_date)
           (generateProtocolEvents (fixed_zone c) (create_protocol ty s k st) prof) =
         Some (map (\<lambda>i. startDate (create_protocol ty s k st) + int i * msPerDay)
                 [0..<nat (7 * k + 1)])"
proof -
  have "ev_date (create_event (fixed_zone c) (create_protocol ty s k st) prof
                   (startDate (create_protocol ty s k st) + int i * msPerDay))
          = startDate (create_protocol ty s k st) + int i * msPerDay" for i
    by (simp only: ev_date_create_event Day_start_plus)
       (simp add: create_protocol_startDate distrib_right)
  then show ?thesis
    unfolding generate_fixed_zone [OF assms] by (simp add: o_def)
qed

lemma daysSinceStart_create_protocol:
  "daysSinceStart (create_protocol ty s k st)
     (startDate (create_protocol ty s k st) + i * msPerDay) = i"
  by (simp add: daysSinceStart_def msPerDay_def)

text \<open>
  If the offset is not negative and less than a day, the local weekday of each of these
  days is the weekday of its UTC date, and the classification is the rule of the protocol
  type.
\<close>

lemma getDay_fixed_zone:
  assumes "0 \<le> c" and "c < msPerDay"
  shows "getDay (fixed_zone c) (startDate (create_protocol ty s k st) + i * msPerDay)
           = WeekDay (startDate (create_protocol ty s k st) + i * msPerDay)"
proof -
  have "(Day s * msPerDay + i * msPerDay + c) div msPerDay = Day s + i"
    using assms by (simp add: distrib_right [symmetric] div_pos_pos_trivial)
  moreover have "(Day s * msPerDay + i * msPerDay) div msPerDay = Day s + i"
    using msPerDay_pos by (simp add: distrib_right [symmetric])
  ultimately show ?thesis
    by (simp add: getDay_def WeekDay_def LocalTime_def fixed_zone_def create_protocol_startDate
        Day_def [of "_ + _"])
qed

lemma isDoseDay_fixed_zone:
  assumes "0 \<le> c" and "c < msPerDay"
  shows "isDoseDay (fixed_zone c) (create_protocol ty s k st)
           (startDate (create_protocol ty s k st) + int i * msPerDay) =
         (if ty = ''fadiman'' then int i mod 3 = 0
          else if ty = ''stamets'' then int i mod 7 < 4
          else if ty = ''custom'' then
            (case custom st of
               None \<Rightarrow> False
             | Some cs \<Rightarrow>
                 (case doseDays cs of
                    None \<Rightarrow> False
                  | Some days \<Rightarrow>
                      WeekDay (startDate (create_protocol ty s k st) + int i * msPerDay)
                        \<in> set days))
          else False)"
proof -
  have t: "protocol_type (create_protocol ty s k st) = ty"
    and st: "settings (create_protocol ty s k st) = st"
    by (simp_all add: create_protocol_def Let_def)
  show ?thesis
    unfolding isDoseDay_def Let_def t st daysSinceStart_create_protocol
      getDay_fixed_zone [OF assms]
    by (simp add: smod_nonneg)
qed


section \<open>Claims about the event generator\<close>

lemma create_event_dose_fields: "dose_fields_ok prof (create_event tz p prof d)"
  by (simp add: dose_fields_ok_def create_event_def Let_def)

lemma generate_loop_dose_fields:
  assumes "generate_loop tz p prof cur acc = Some evs"
  shows "(\<forall>e \<in> set acc. dose_fields_ok prof e) \<longrightarrow> (\<forall>e \<in> set evs. dose_fields_ok prof e)"
  using assms
proof (induction tz p prof cur acc evs rule: generate_loop.raw_induct [rotated 1, consumes 1])
  case (1 loop tz p prof cur acc evs)
  show ?case
  proof (cases "cur \<le> endDate p")
    case True
    with 1(2) have "loop tz p prof (setDate_getDate_plus_1 tz cur)
                      (acc @ [create_event tz p prof cur]) = Some evs"
      by simp
    from 1(1) [OF this] show ?thesis
      by (simp add: create_event_dose_fields)
  next
    case False
    with 1(2) show ?thesis by simp
  qed
qed

text \<open>
  Claim C8. In the event list that the generator returns, on any host, every event is a
  \<^verbatim>\<open>dose\<close> or a \<^verbatim>\<open>pause\<close> event; every \<^verbatim>\<open>dose\<close> event has the substance, dose
  and dose unit of the supplied profile, and every \<^verbatim>\<open>pause\<close> event has these three
  fields null.
\<close>

theorem dose_events_copy_profile:
  assumes "generateProtocolEvents tz p prof = Some evs" and "e \<in> set evs"
  shows "(ev_type e = ''dose'' \<longrightarrow>
            ev_substance e = Some (profile_substance prof) \<and>
            ev_dose e = Some (profile_calculatedDose prof) \<and>
            ev_doseUnit e = Some (profile_doseUnit prof)) \<and>
         (ev_type e = ''pause'' \<longrightarrow>
            ev_substance e = None \<and> ev_dose e = None \<and> ev_doseUnit e = None) \<and>
         (ev_type e = ''dose'' \<or> ev_type e = ''pause'')"
proof -
  from assms(1) have "\<forall>e \<in> set evs. dose_fields_ok prof e"
    unfolding generateProtocolEvents_def
    using generate_loop_dose_fields by fastforce
  with assms(2) have "dose_fields_ok prof e" by blast
  then show ?thesis
    unfolding dose_fields_ok_def by auto
qed

theorem dose_events_copy_profile_witness:
  "\<exists>evs. generateProtocolEvents (fixed_zone 0)
            (create_protocol ''fadiman'' start_2024_03_25 2 no_settings) prof_ex = Some evs \<and>
         ev_type (evs ! 0) = ''dose'' \<and> ev_substance (evs ! 0) = Some ''psilocybin'' \<and>
         ev_dose (evs ! 0) = Some 200 \<and> ev_doseUnit (evs ! 0) = Some ''mg'' \<and>
         ev_type (evs ! 1) = ''pause'' \<and> ev_substance (evs ! 1) = None \<and>
         ev_dose (evs ! 1) = None \<and> ev_doseUnit (evs ! 1) = None"
proof -
  let ?p = "create_protocol ''fadiman'' start_2024_03_25 2 no_settings"
  let ?f = "\<lambda>i. create_event (fixed_zone 0) ?p prof_ex (startDate ?p + int i * msPerDay)"
  let ?evs = "map ?f [0..<nat (7 * 2 + 1)]"
  have g: "generateProtocolEvents (fixed_zone 0) ?p prof_ex = Some ?evs"
    by (rule generate_fixed_zone) simp
  have e0: "?evs ! 0 = ?f 0" and e1: "?evs ! 1 = ?f 1"
    by simp_all
  have in0: "?evs ! 0 \<in> set ?evs" and in1: "?evs ! 1 \<in> set ?evs"
    by (rule nth_mem, simp)+
  have d0: "isDoseDay (fixed_zone 0) ?p (startDate ?p + int 0 * msPerDay)"
    using isDoseDay_fixed_zone [where c = 0 and ty = "''fadiman''" and s = start_2024_03_25
        and k = 2 and st = no_settings and i = 0]
    by (simp add: msPerDay_def)
  have d1: "\<not> isDoseDay (fixed_zone 0) ?p (startDate ?p + int 1 * msPerDay)"
    using isDoseDay_fixed_zone [where c = 0 and ty = "''fadiman''" and s = start_2024_03_25
        and k = 2 and st = no_settings and i = 1]
    by (simp add: msPerDay_def)
  have t0: "ev_type (?evs ! 0) = ''dose''"
    unfolding e0 using d0 by (simp add: create_event_def Let_def)
  have t1: "ev_type (?evs ! 1) = ''pause''"
    unfolding e1 using d1 by (simp add: create_event_def Let_def)
  from dose_events_copy_profile [OF g in0] t0
  have "ev_substance (?evs ! 0) = Some ''psilocybin'' \<and> ev_dose (?evs ! 0) = Some 200 \<and>
        ev_doseUnit (?evs ! 0) = Some ''mg''"
    by (simp add: prof_ex_def)
  moreover from dose_events_copy_profile [OF g in1] t1
  have "ev_substance (?evs ! 1) = None \<and> ev_dose (?evs ! 1) = None \<and>
        ev_doseUnit (?evs ! 1) = None"
    by simp
  ultimately show ?thesis
    using g t0 t1 by blast
qed

text \<open>
  Claim C2 on a host in Central European Time. A two-week Fadiman protocol starting on
  2024-03-25 spans the start of summer time. The generator returns 16 events and not 15:
  counted in days from the start, their dates are 0 to 14 with day 6 (2024-03-31) twice.
  After the change each local midnight plus one hour is 23:00 UTC of the previous day, so
  the date of the event, cut to UTC midnight, stays one day behind.
\<close>

theorem generate_summer_time_dates:
  "map_option (map (\<lambda>e. (ev_date e - start_2024_03_25) div msPerDay))
     (generateProtocolEvents Europe_Berlin_2024
        (create_protocol ''fadiman'' start_2024_03_25 2 no_settings) prof_ex)
   = Some [0, 1, 2, 3, 4, 5, 6, 6, 7, 8, 9, 10, 11, 12, 13, 14]"
  by code_simp

text \<open>
  Claim C3 on the same host, for a custom protocol with the dose-day set \<open>{1}\<close>
  (Monday). Each event is shown as the day of its date counted from the start, the weekday
  of its date, and its type. The second event dated Sunday 2024-03-31 is a dose event, and
  the events dated Monday 2024-04-01 and Monday 2024-04-08 are pause events: after the
  change the weekday tested is that of the following day.
\<close>

theorem generate_summer_time_custom:
  "map_option (map (\<lambda>e. ((ev_date e - start_2024_03_25) div msPerDay, WeekDay (ev_date e),
                          ev_type e)))
     (generateProtocolEvents Europe_Berlin_2024
        (create_protocol ''custom'' start_2024_03_25 2 (custom_days [1])) prof_ex)
   = Some [(0, 1, ''dose''), (1, 2, ''pause''), (2, 3, ''pause''), (3, 4, ''pause''),
           (4, 5, ''pause''), (5, 6, ''pause''), (6, 0, ''pause''), (6, 0, ''dose''),
           (7, 1, ''pause''), (8, 2, ''pause''), (9, 3, ''pause''), (10, 4, ''pause''),
           (11, 5, ''pause''), (12, 6, ''pause''), (13, 0, ''dose''), (14, 1, ''pause'')]"
  by code_simp








end
